theory Spec2Isabelle
  imports Main "HOL-Library.Word" "HOL-Library.Sublist" "HOL-Library.AList"
begin

unbundle bit_operations_syntax

section \<open>Errors and outcomes\<close>

text \<open>
  Go's \<^verbatim>\<open>error\<close> values, as far as \<^verbatim>\<open>pkg/config/config.go\<close> tells them apart:
  by dynamic type (\<^verbatim>\<open>syscall.Errno\<close>, \<^verbatim>\<open>*iptables.Error\<close>) and through
  \<^verbatim>\<open>os.IsExist\<close>. An \<open>IptablesError\<close> carries what the code reads from it: its
  \<^verbatim>\<open>ExitStatus()\<close> and its \<^verbatim>\<open>Error()\<close> string. \<open>Wrapped\<close> stands for the three
  wrappers \<^verbatim>\<open>os.IsExist\<close> looks through (\<^verbatim>\<open>*PathError\<close>, \<^verbatim>\<open>*LinkError\<close>,
  \<^verbatim>\<open>*SyscallError\<close>), \<open>ErrExist\<close> for \<^verbatim>\<open>os.ErrExist\<close>, \<open>OtherError\<close> for an
  error of any other dynamic type. A nil error is \<open>None\<close>.
\<close>

datatype error =
    Errno nat
  | IptablesError int string
  | ErrExist
  | Wrapped error
  | OtherError string

definition ESRCH :: nat where "ESRCH = 3"
definition EEXIST :: nat where "EEXIST = 17"
definition ENOTEMPTY :: nat where "ENOTEMPTY = 39"
definition ENOENT :: nat where "ENOENT = 2"
definition ENOBUFS :: nat where "ENOBUFS = 105"

text \<open>\<^verbatim>\<open>unix.AF_INET\<close>.\<close>

definition AF_INET :: int where "AF_INET = 2"

text \<open>
  \<^verbatim>\<open>os.IsExist\<close> of the Go standard library: it unwraps one level of the three wrapper
  types, then accepts \<^verbatim>\<open>os.ErrExist\<close> and the errnos \<^verbatim>\<open>EEXIST\<close> and \<^verbatim>\<open>ENOTEMPTY\<close>.
  It is false of nil.
\<close>

fun underlyingError :: "error \<Rightarrow> error" where
  "underlyingError (Wrapped e) = e"
| "underlyingError e = e"

definition os_IsExist :: "error option \<Rightarrow> bool" where
  "os_IsExist err =
     (case err of
        None \<Rightarrow> False
      | Some e \<Rightarrow>
          (case underlyingError e of
             ErrExist \<Rightarrow> True
           | Errno n \<Rightarrow> n = EEXIST \<or> n = ENOTEMPTY
           | _ \<Rightarrow> False))"

text \<open>
  The comma-ok type assertion \<^verbatim>\<open>eerr, eok := err.(*iptables.Error)\<close>: \<open>Some\<close> of the
  exit status and the error string when the dynamic type matches, \<open>None\<close> (\<^verbatim>\<open>eok\<close>
  false, \<^verbatim>\<open>eerr\<close> a nil pointer) otherwise.
\<close>

fun asIptablesError :: "error \<Rightarrow> (int \<times> string) option" where
  "asIptablesError (IptablesError status msg) = Some (status, msg)"
| "asIptablesError _ = None"

text \<open>\<^verbatim>\<open>strings.Contains\<close>: the second string occurs in the first as a contiguous run.\<close>

fun strings_Contains :: "string \<Rightarrow> string \<Rightarrow> bool" where
  "strings_Contains [] substr = (substr = [])"
| "strings_Contains (c # s) substr = (prefix substr (c # s) \<or> strings_Contains s substr)"

text \<open>
  A call either returns its value or panics (a failed unchecked type assertion, a nil
  pointer dereference). The state travels beside the outcome.
\<close>

datatype 'a outcome = Return 'a | Panic

section \<open>The data model of \<^verbatim>\<open>config.go\<close>\<close>

text \<open>
  \<^verbatim>\<open>net.IPNet\<close> and \<^verbatim>\<open>netlink.Rule\<close> are library types. A Go slice is a list option
  (\<open>None\<close> the nil slice) and a pointer an option, so that HOL equality on these
  records is \<^verbatim>\<open>reflect.DeepEqual\<close> on the Go values: a nil and an empty slice differ,
  pointers are compared through their targets. The record scheme's extension slot
  stands for the fields other versions of the library add.
\<close>

type_synonym 'a slice = "'a list option"

record net_IPNet =
  IP :: "8 word slice"
  Mask :: "8 word slice"

record netlink_Rule =
  Priority :: int
  Family :: int
  Table :: int
  Mark :: int
  Mask :: int
  Tos :: nat
  TunID :: nat
  Goto :: int
  Src :: "net_IPNet option"
  Dst :: "net_IPNet option"
  Flow :: int
  IifName :: string
  OifName :: string
  SuppressIfgroup :: int
  SuppressPrefixlen :: int
  Invert :: bool
  Dport :: "(16 word \<times> 16 word) option"
  Sport :: "(16 word \<times> 16 word) option"

text \<open>
  The pluggable functions act on a world \<open>'s\<close> (kernel tables, packet-filter tables);
  a call takes the world and returns its result beside the new world.
  \<^verbatim>\<open>netlink.Route\<close> is only passed through, so it is a type parameter \<open>'r\<close>.
  The add and delete functions get a pointer to the config's own copy of the route or
  rule; they are taken to read it only.
\<close>

record 's SysctlConfig =
  Key :: string
  Value :: string
  DefaultValue :: string
  SysctlFunc :: "string \<Rightarrow> string list \<Rightarrow> 's \<Rightarrow> (string \<times> error option) \<times> 's"

record ('r, 's) IPRouteConfig =
  Route :: 'r
  RouteAdd :: "'r \<Rightarrow> 's \<Rightarrow> error option \<times> 's"
  RouteDel :: "'r \<Rightarrow> 's \<Rightarrow> error option \<times> 's"

record 's IPRuleConfig =
  Rule :: netlink_Rule
  RuleAdd :: "netlink_Rule \<Rightarrow> 's \<Rightarrow> error option \<times> 's"
  RuleDel :: "netlink_Rule \<Rightarrow> 's \<Rightarrow> error option \<times> 's"
  RuleList :: "int \<Rightarrow> 's \<Rightarrow> (netlink_Rule list \<times> error option) \<times> 's"

type_synonym IPTablesRuleSpec = "string list"

record 's iptabler =
  NewChain :: "string \<Rightarrow> string \<Rightarrow> 's \<Rightarrow> error option \<times> 's"
  ClearChain :: "string \<Rightarrow> string \<Rightarrow> 's \<Rightarrow> error option \<times> 's"
  DeleteChain :: "string \<Rightarrow> string \<Rightarrow> 's \<Rightarrow> error option \<times> 's"
  AppendUnique :: "string \<Rightarrow> string \<Rightarrow> IPTablesRuleSpec \<Rightarrow> 's \<Rightarrow> error option \<times> 's"
  Delete :: "string \<Rightarrow> string \<Rightarrow> IPTablesRuleSpec \<Rightarrow> 's \<Rightarrow> error option \<times> 's"

record 's IPTablesChainSpec =
  TableName :: string
  ChainName :: string
  IsDefaultChain :: bool
  IPT :: "'s iptabler"

record 's IPTablesRuleConfig =
  Spec :: "'s IPTablesChainSpec"
  RuleSpecs :: "IPTablesRuleSpec list"
  IPT :: "'s iptabler"

section \<open>Policy rules: equality without priority\<close>

definition isRuleEqualWithoutPriority ::
    "'a netlink_Rule_scheme \<Rightarrow> 'a netlink_Rule_scheme \<Rightarrow> bool" where
  "isRuleEqualWithoutPriority rule1 rule2 =
     (let rule1Copy = rule1\<lparr>Priority := 0\<rparr>;
          rule2Copy = rule2\<lparr>Priority := 0\<rparr>
      in rule1Copy = rule2Copy)"

section \<open>The \<^verbatim>\<open>Ensure\<close> operations\<close>

text \<open>
  Calls of \<^verbatim>\<open>glog.Errorf\<close> write to the process log only and are left out: no
  result and no table depends on them.
\<close>

definition SysctlConfig_Ensure ::
    "'s SysctlConfig \<Rightarrow> bool \<Rightarrow> 's \<Rightarrow> error option outcome \<times> 's" where
  "SysctlConfig_Ensure c enabled s =
     (let v = (if enabled then Value c else DefaultValue c) in
      case SysctlFunc c (Key c) [v] s of
        ((_, err), s') \<Rightarrow> (Return err, s'))"

text \<open>
  In the disabled branch \<^verbatim>\<open>err.(syscall.Errno)\<close> is an unchecked type assertion,
  evaluated whenever the delete error is not nil: it panics on any other dynamic type.
\<close>

definition IPRouteConfig_Ensure ::
    "('r, 's) IPRouteConfig \<Rightarrow> bool \<Rightarrow> 's \<Rightarrow> error option outcome \<times> 's" where
  "IPRouteConfig_Ensure r enabled s =
     (if enabled then
        (case RouteAdd r (Route r) s of
           (err, s') \<Rightarrow> (Return (if os_IsExist err then None else err), s'))
      else
        (case RouteDel r (Route r) s of
           (None, s') \<Rightarrow> (Return None, s')
         | (Some (Errno n), s') \<Rightarrow>
             (Return (if n = ESRCH then None else Some (Errno n)), s')
         | (Some _, s') \<Rightarrow> (Panic, s')))"

definition IPRuleConfig_count ::
    "'s IPRuleConfig \<Rightarrow> 's \<Rightarrow> (int \<times> error option) \<times> 's" where
  "IPRuleConfig_count r s =
     (case RuleList r AF_INET s of
        ((rules, Some e), s') \<Rightarrow> ((0, Some e), s')
      | ((rules, None), s') \<Rightarrow>
          ((foldl (\<lambda>count rule.
                     if isRuleEqualWithoutPriority rule (Rule r) then count + 1 else count)
                  0 rules, None), s'))"

text \<open>
  The loop of \<^verbatim>\<open>ensureHelper\<close>, with its variables \<^verbatim>\<open>ruleCount\<close> and \<^verbatim>\<open>err\<close> as
  arguments. Each round assigns the call's result to \<^verbatim>\<open>err\<close>; an add error that
  \<^verbatim>\<open>os.IsExist\<close> accepts is reset to nil. The counters are Go \<^verbatim>\<open>int\<close>s that move
  between a list length and the targets 0 and 1, far from the 64-bit bounds, so they
  are unbounded integers here.
\<close>

function ensureLoop ::
    "'s IPRuleConfig \<Rightarrow> int \<Rightarrow> int \<Rightarrow> error option \<Rightarrow> 's \<Rightarrow> error option \<times> 's" where
  "ensureLoop r ruleCount ensureCount err s =
     (if ruleCount \<noteq> ensureCount then
        (if ruleCount > ensureCount then
           (case RuleDel r (Rule r) s of
              (err', s') \<Rightarrow> ensureLoop r (ruleCount - 1) ensureCount err' s')
         else
           (case RuleAdd r (Rule r) s of
              (err', s') \<Rightarrow>
                ensureLoop r (ruleCount + 1) ensureCount
                  (if os_IsExist err' then None else err') s'))
      else (err, s))"
  by pat_completeness auto
termination
  by (relation "measure (\<lambda>(r, ruleCount, ensureCount, err, s). nat \<bar>ruleCount - ensureCount\<bar>)")
     auto

declare ensureLoop.simps [simp del]

definition ensureHelper ::
    "'s IPRuleConfig \<Rightarrow> int \<Rightarrow> 's \<Rightarrow> error option \<times> 's" where
  "ensureHelper r ensureCount s =
     (case IPRuleConfig_count r s of
        ((ruleCount, Some e), s') \<Rightarrow> (Some e, s')
      | ((ruleCount, None), s') \<Rightarrow> ensureLoop r ruleCount ensureCount None s')"

definition IPRuleConfig_Ensure ::
    "'s IPRuleConfig \<Rightarrow> bool \<Rightarrow> 's \<Rightarrow> error option outcome \<times> 's" where
  "IPRuleConfig_Ensure r enabled s =
     (case (if enabled then ensureHelper r 1 s else ensureHelper r 0 s) of
        (err, s') \<Rightarrow> (Return err, s'))"

text \<open>
  \<^verbatim>\<open>!eok || eerr.ExitStatus() != 1\<close>: the error is fatal unless it is an
  \<^verbatim>\<open>*iptables.Error\<close> with exit status 1.
\<close>

definition fatalUnlessStatus1 :: "error \<Rightarrow> bool" where
  "fatalUnlessStatus1 e =
     (case asIptablesError e of None \<Rightarrow> True | Some (status, msg) \<Rightarrow> status \<noteq> 1)"

definition IPTablesChainSpec_ensure ::
    "'s IPTablesChainSpec \<Rightarrow> bool \<Rightarrow> 's \<Rightarrow> error option \<times> 's" where
  "IPTablesChainSpec_ensure c enabled s =
     (if enabled then
        (case NewChain (IPTablesChainSpec.IPT c) (TableName c) (ChainName c) s of
           (None, s') \<Rightarrow> (None, s')
         | (Some e, s') \<Rightarrow> if fatalUnlessStatus1 e then (Some e, s') else (None, s'))
      else if \<not> IsDefaultChain c then
        (case ClearChain (IPTablesChainSpec.IPT c) (TableName c) (ChainName c) s of
           (Some e, s') \<Rightarrow> (Some e, s')
         | (None, s') \<Rightarrow>
             (case DeleteChain (IPTablesChainSpec.IPT c) (TableName c) (ChainName c) s' of
                (None, s'') \<Rightarrow> (None, s'')
              | (Some e, s'') \<Rightarrow>
                  if fatalUnlessStatus1 e then (Some e, s'') else (None, s'')))
      else (None, s))"

text \<open>The enabled loop of \<^verbatim>\<open>IPTablesRuleConfig.Ensure\<close>: the first append error returns.\<close>

fun appendRuleSpecs ::
    "'s iptabler \<Rightarrow> string \<Rightarrow> string \<Rightarrow> IPTablesRuleSpec list \<Rightarrow> 's \<Rightarrow>
     error option outcome \<times> 's" where
  "appendRuleSpecs ipt t c [] s = (Return None, s)"
| "appendRuleSpecs ipt t c (rs # rss) s =
     (case AppendUnique ipt t c rs s of
        (Some e, s') \<Rightarrow> (Return (Some e), s')
      | (None, s') \<Rightarrow> appendRuleSpecs ipt t c rss s')"

text \<open>
  The disabled loop on a default chain. For a delete error that is no
  \<^verbatim>\<open>*iptables.Error\<close>, \<^verbatim>\<open>!eok\<close> enters the outer branch with \<^verbatim>\<open>eerr\<close> a nil pointer,
  and \<^verbatim>\<open>eerr.Error()\<close> dereferences it: a panic. An \<^verbatim>\<open>*iptables.Error\<close> is skipped when
  its exit status is 2 or its string contains \<^verbatim>\<open>No chain/target/match\<close>, and returned
  otherwise.
\<close>

fun deleteRuleSpecs ::
    "'s iptabler \<Rightarrow> string \<Rightarrow> string \<Rightarrow> IPTablesRuleSpec list \<Rightarrow> 's \<Rightarrow>
     error option outcome \<times> 's" where
  "deleteRuleSpecs ipt t c [] s = (Return None, s)"
| "deleteRuleSpecs ipt t c (rs # rss) s =
     (case Delete ipt t c rs s of
        (None, s') \<Rightarrow> deleteRuleSpecs ipt t c rss s'
      | (Some e, s') \<Rightarrow>
          (case asIptablesError e of
             None \<Rightarrow> (Panic, s')
           | Some (status, msg) \<Rightarrow>
               if status \<noteq> 2 then
                 (if \<not> strings_Contains msg ''No chain/target/match''
                  then (Return (Some e), s')
                  else deleteRuleSpecs ipt t c rss s')
               else deleteRuleSpecs ipt t c rss s'))"

definition IPTablesRuleConfig_Ensure ::
    "'s IPTablesRuleConfig \<Rightarrow> bool \<Rightarrow> 's \<Rightarrow> error option outcome \<times> 's" where
  "IPTablesRuleConfig_Ensure r enabled s =
     (case IPTablesChainSpec_ensure (Spec r) enabled s of
        (Some e, s') \<Rightarrow> (Return (Some e), s')
      | (None, s') \<Rightarrow>
          if enabled then
            appendRuleSpecs (IPTablesRuleConfig.IPT r) (TableName (Spec r))
              (ChainName (Spec r)) (RuleSpecs r) s'
          else if IsDefaultChain (Spec r) then
            deleteRuleSpecs (IPTablesRuleConfig.IPT r) (TableName (Spec r))
              (ChainName (Spec r)) (RuleSpecs r) s'
          else (Return None, s'))"

text \<open>
  The \<^verbatim>\<open>Config\<close> interface has four implementations in \<^verbatim>\<open>config.go\<close>; a value of the
  interface is one of them, and \<^verbatim>\<open>Ensure\<close> dispatches on it.
\<close>

datatype ('r, 's) Config =
    Sysctl "'s SysctlConfig"
  | IPRoute "('r, 's) IPRouteConfig"
  | IPRule "'s IPRuleConfig"
  | IPTablesRule "'s IPTablesRuleConfig"

fun Ensure :: "('r, 's) Config \<Rightarrow> bool \<Rightarrow> 's \<Rightarrow> error option outcome \<times> 's" where
  "Ensure (Sysctl c) enabled s = SysctlConfig_Ensure c enabled s"
| "Ensure (IPRoute c) enabled s = IPRouteConfig_Ensure c enabled s"
| "Ensure (IPRule c) enabled s = IPRuleConfig_Ensure c enabled s"
| "Ensure (IPTablesRule c) enabled s = IPTablesRuleConfig_Ensure c enabled s"

record ('r, 's) Set =
  Enabled :: bool
  FeatureName :: string
  Configs :: "('r, 's) Config list"

section \<open>Parts of the package outside \<^verbatim>\<open>config.go\<close>\<close>

text \<open>
  Modelled from the spec: \<^verbatim>\<open>Ensure\<close> on a \<^verbatim>\<open>Set\<close>. \<^verbatim>\<open>config.go\<close> declares the
  \<^verbatim>\<open>Set\<close> struct only; the loop over its members is not in the sources. The spec
  (4.7): \<^verbatim>\<open>Ensure\<close> on a Set calls \<^verbatim>\<open>Ensure(enabled)\<close> on each member Config in
  declaration order; the first error aborts the bundle and is returned to the caller;
  no partial rollback is attempted. A member that panics aborts the bundle as well.
\<close>

fun ensureConfigs ::
    "('r, 's) Config list \<Rightarrow> bool \<Rightarrow> 's \<Rightarrow> error option outcome \<times> 's" where
  "ensureConfigs [] enabled s = (Return None, s)"
| "ensureConfigs (c # cs) enabled s =
     (case Ensure c enabled s of
        (Return None, s') \<Rightarrow> ensureConfigs cs enabled s'
      | (res, s') \<Rightarrow> (res, s'))"

definition Set_Ensure ::
    "('r, 's) Set \<Rightarrow> bool \<Rightarrow> 's \<Rightarrow> error option outcome \<times> 's" where
  "Set_Ensure S enabled s = ensureConfigs (Configs S) enabled s"

text \<open>
  Modelled from the spec: the node-derived local-rule builder
  \<^verbatim>\<open>fillLocalRulesFromNode\<close>. Only its test is in the sources. The spec (4.6): take the
  node's pod CIDR (the single value or, if absent, the first entry of the list) and
  parse it into a network prefix, failing with a missing-pod-CIDR error; compute the
  gateway as the network's base address incremented by one host, as a host route
  (/32); fail with a missing-internal-IP error if the node reports no internal
  address; build one policy-rule config per internal address; replace the
  process-wide \<^verbatim>\<open>vethGatewayDst\<close> and \<^verbatim>\<open>localTableRuleConfigs\<close> wholesale. IPv4 only
  (the spec leaves IPv6 out). How a rule config is built from an address is a
  parameter.
\<close>

datatype NodeAddressType = NodeHostName | NodeInternalIP | NodeExternalIP

record NodeAddress =
  Type :: NodeAddressType
  Address :: string

record Node =
  PodCIDR :: string
  PodCIDRs :: "string list"
  Addresses :: "NodeAddress list"

record 'c LocalRuleState =
  vethGatewayDst :: net_IPNet
  LocalTableRuleConfigs :: "'c list"

datatype fillError = MissingPodCIDR | MissingInternalIP

fun splitOn :: "char \<Rightarrow> string \<Rightarrow> string list" where
  "splitOn sep [] = [[]]"
| "splitOn sep (c # cs) =
     (if c = sep then [] # splitOn sep cs
      else (case splitOn sep cs of [] \<Rightarrow> [[c]] | w # ws \<Rightarrow> (c # w) # ws))"

definition digitOf :: "char \<Rightarrow> nat option" where
  "digitOf c =
     (let n = (of_char c :: nat) in if 48 \<le> n \<and> n \<le> 57 then Some (n - 48) else None)"

fun decimalFrom :: "nat \<Rightarrow> string \<Rightarrow> nat option" where
  "decimalFrom acc [] = Some acc"
| "decimalFrom acc (c # cs) =
     (case digitOf c of None \<Rightarrow> None | Some d \<Rightarrow> decimalFrom (10 * acc + d) cs)"

definition parseDecimal :: "string \<Rightarrow> nat option" where
  "parseDecimal w = (if w = [] \<or> 3 < length w then None else decimalFrom 0 w)"

definition parseIPv4 :: "string \<Rightarrow> 32 word option" where
  "parseIPv4 w =
     (case map parseDecimal (splitOn CHR ''.'' w) of
        [Some a, Some b, Some c, Some d] \<Rightarrow>
          if a \<le> 255 \<and> b \<le> 255 \<and> c \<le> 255 \<and> d \<le> 255
          then Some (word_of_nat (((a * 256 + b) * 256 + c) * 256 + d))
          else None
      | _ \<Rightarrow> None)"

text \<open>A pod CIDR \<^verbatim>\<open>a.b.c.d/n\<close>: the address as a 32-bit word and the prefix length.\<close>

definition ParseCIDR :: "string \<Rightarrow> (32 word \<times> nat) option" where
  "ParseCIDR w =
     (case splitOn CHR ''/'' w of
        [addr, len] \<Rightarrow>
          (case (parseIPv4 addr, parseDecimal len) of
             (Some ip, Some n) \<Rightarrow> if n \<le> 32 then Some (ip, n) else None
           | _ \<Rightarrow> None)
      | _ \<Rightarrow> None)"

definition networkBase :: "32 word \<times> nat \<Rightarrow> 32 word" where
  "networkBase net = (case net of (ip, n) \<Rightarrow> ip AND NOT (mask (32 - n)))"

definition ipBytes :: "32 word \<Rightarrow> 8 word list" where
  "ipBytes w = [ucast (drop_bit 24 w), ucast (drop_bit 16 w), ucast (drop_bit 8 w), ucast w]"

definition gatewayDst :: "32 word \<times> nat \<Rightarrow> net_IPNet" where
  "gatewayDst net =
     \<lparr>IP = Some (ipBytes (networkBase net + 1)), Mask = Some [255, 255, 255, 255]\<rparr>"

definition podCIDROf :: "Node \<Rightarrow> string option" where
  "podCIDROf node =
     (if PodCIDR node \<noteq> [] then Some (PodCIDR node)
      else (case PodCIDRs node of [] \<Rightarrow> None | c # cs \<Rightarrow> Some c))"

definition internalIPs :: "Node \<Rightarrow> string list" where
  "internalIPs node = map Address (filter (\<lambda>a. Type a = NodeInternalIP) (Addresses node))"

definition fillLocalRulesFromNode ::
    "(string \<Rightarrow> 'c) \<Rightarrow> Node \<Rightarrow> 'c LocalRuleState \<Rightarrow> fillError + 'c LocalRuleState" where
  "fillLocalRulesFromNode newRuleConfig node st =
     (case podCIDROf node of
        None \<Rightarrow> Inl MissingPodCIDR
      | Some cidr \<Rightarrow>
          (case ParseCIDR cidr of
             None \<Rightarrow> Inl MissingPodCIDR
           | Some net \<Rightarrow>
               if internalIPs node = [] then Inl MissingInternalIP
               else Inr \<lparr>vethGatewayDst = gatewayDst net,
                         LocalTableRuleConfigs = map newRuleConfig (internalIPs node)\<rparr>))"

section \<open>Recording doubles\<close>

text \<open>
  To speak about the calls a run issues, a config's pluggable functions are wrapped so
  that each call is appended to a log kept beside the world, as a recording test double
  does. The wrapped functions behave as the originals on the world.
\<close>

datatype ruleCall =
    RuleListCall int "error option"
  | RuleAddCall netlink_Rule "error option"
  | RuleDelCall netlink_Rule "error option"

fun callError :: "ruleCall \<Rightarrow> error option" where
  "callError (RuleListCall family e) = e"
| "callError (RuleAddCall x e) = e"
| "callError (RuleDelCall x e) = e"

definition recordingRules :: "'s IPRuleConfig \<Rightarrow> ('s \<times> ruleCall list) IPRuleConfig" where
  "recordingRules r =
     \<lparr>Rule = Rule r,
      RuleAdd = (\<lambda>x (s, log). case RuleAdd r x s of
                   (e, s') \<Rightarrow> (e, (s', log @ [RuleAddCall x e]))),
      RuleDel = (\<lambda>x (s, log). case RuleDel r x s of
                   (e, s') \<Rightarrow> (e, (s', log @ [RuleDelCall x e]))),
      RuleList = (\<lambda>family (s, log). case RuleList r family s of
                   ((rules, e), s') \<Rightarrow> ((rules, e), (s', log @ [RuleListCall family e])))\<rparr>"

datatype iptCall =
    NewChainCall string string
  | ClearChainCall string string
  | DeleteChainCall string string
  | AppendUniqueCall string string IPTablesRuleSpec
  | DeleteCall string string IPTablesRuleSpec

definition recordingIPT :: "'s iptabler \<Rightarrow> ('s \<times> iptCall list) iptabler" where
  "recordingIPT ipt =
     \<lparr>NewChain = (\<lambda>t c (s, log). case NewChain ipt t c s of
                    (e, s') \<Rightarrow> (e, (s', log @ [NewChainCall t c]))),
      ClearChain = (\<lambda>t c (s, log). case ClearChain ipt t c s of
                    (e, s') \<Rightarrow> (e, (s', log @ [ClearChainCall t c]))),
      DeleteChain = (\<lambda>t c (s, log). case DeleteChain ipt t c s of
                    (e, s') \<Rightarrow> (e, (s', log @ [DeleteChainCall t c]))),
      AppendUnique = (\<lambda>t c rs (s, log). case AppendUnique ipt t c rs s of
                    (e, s') \<Rightarrow> (e, (s', log @ [AppendUniqueCall t c rs]))),
      Delete = (\<lambda>t c rs (s, log). case Delete ipt t c rs s of
                    (e, s') \<Rightarrow> (e, (s', log @ [DeleteCall t c rs])))\<rparr>"

definition recordingIPTablesRuleConfig ::
    "'s IPTablesRuleConfig \<Rightarrow> ('s \<times> iptCall list) IPTablesRuleConfig" where
  "recordingIPTablesRuleConfig r =
     \<lparr>Spec = \<lparr>TableName = TableName (Spec r), ChainName = ChainName (Spec r),
              IsDefaultChain = IsDefaultChain (Spec r),
              IPT = recordingIPT (IPTablesChainSpec.IPT (Spec r))\<rparr>,
      RuleSpecs = RuleSpecs r,
      IPT = recordingIPT (IPTablesRuleConfig.IPT r)\<rparr>"

section \<open>The kernel's rule table, as the convergence loop sees it\<close>

text \<open>
  The number of rules of a table that equal the config's rule without priority.
\<close>

definition matchingRules :: "'s IPRuleConfig \<Rightarrow> netlink_Rule list \<Rightarrow> nat" where
  "matchingRules r rules =
     length (filter (\<lambda>rule. isRuleEqualWithoutPriority rule (Rule r)) rules)"

text \<open>
  What a successful call means for a world whose rule table is \<open>table s\<close>: a successful
  list returns the table and leaves it as it is, a successful add of the config's rule
  raises the number of matching rules by one, a successful delete lowers it by one.
  Nothing is asked of a call that fails.
\<close>

definition ruleTableContract :: "'s IPRuleConfig \<Rightarrow> ('s \<Rightarrow> netlink_Rule list) \<Rightarrow> bool" where
  "ruleTableContract r table =
     ((\<forall>s rules s'. RuleList r AF_INET s = ((rules, None), s') \<longrightarrow>
          rules = table s \<and> table s' = table s) \<and>
      (\<forall>s s'. RuleAdd r (Rule r) s = (None, s') \<longrightarrow>
          matchingRules r (table s') = matchingRules r (table s) + 1) \<and>
      (\<forall>s s'. RuleDel r (Rule r) s = (None, s') \<longrightarrow>
          matchingRules r (table s') + 1 = matchingRules r (table s)))"

text \<open>
  An in-memory rule table for concrete runs: a list of rules and a script of injected
  faults, one entry consumed by each add or delete (\<open>Some e\<close> makes the call fail with
  \<open>e\<close> and change nothing). Without a fault, an add refuses a rule that is already in
  the table (\<^verbatim>\<open>EEXIST\<close>) and a delete removes one rule identical to its argument
  (\<^verbatim>\<open>ENOENT\<close> when there is none).
\<close>

record fakeKernel =
  rules :: "netlink_Rule list"
  faults :: "error option list"

definition nextFault :: "fakeKernel \<Rightarrow> error option \<times> fakeKernel" where
  "nextFault k = (case faults k of [] \<Rightarrow> (None, k) | f # fs \<Rightarrow> (f, k\<lparr>faults := fs\<rparr>))"

definition fakeRuleAdd :: "netlink_Rule \<Rightarrow> fakeKernel \<Rightarrow> error option \<times> fakeKernel" where
  "fakeRuleAdd x k =
     (case nextFault k of
        (Some e, k') \<Rightarrow> (Some e, k')
      | (None, k') \<Rightarrow>
          if x \<in> set (rules k') then (Some (Errno EEXIST), k')
          else (None, k'\<lparr>rules := rules k' @ [x]\<rparr>))"

definition fakeRuleDel :: "netlink_Rule \<Rightarrow> fakeKernel \<Rightarrow> error option \<times> fakeKernel" where
  "fakeRuleDel x k =
     (case nextFault k of
        (Some e, k') \<Rightarrow> (Some e, k')
      | (None, k') \<Rightarrow>
          if x \<in> set (rules k') then (None, k'\<lparr>rules := remove1 x (rules k')\<rparr>)
          else (Some (Errno ENOENT), k'))"

definition fakeRuleList ::
    "int \<Rightarrow> fakeKernel \<Rightarrow> (netlink_Rule list \<times> error option) \<times> fakeKernel" where
  "fakeRuleList family k = ((rules k, None), k)"

definition fakeRuleConfig :: "netlink_Rule \<Rightarrow> fakeKernel IPRuleConfig" where
  "fakeRuleConfig x =
     \<lparr>Rule = x, RuleAdd = fakeRuleAdd, RuleDel = fakeRuleDel, RuleList = fakeRuleList\<rparr>"

text \<open>A local-table rule for the node address 10.128.0.24, used in concrete runs.\<close>

definition localRule :: netlink_Rule where
  "localRule =
     \<lparr>Priority = 30001, Family = 2, Table = 255, Mark = 0, Mask = 0, Tos = 0, TunID = 0,
      Goto = - 1, Src = None,
      Dst = Some \<lparr>IP = Some [10, 128, 0, 24], Mask = Some [255, 255, 255, 255]\<rparr>,
      Flow = - 1, IifName = [], OifName = [], SuppressIfgroup = - 1,
      SuppressPrefixlen = - 1, Invert = False, Dport = None, Sport = None\<rparr>"

section \<open>The packet filter and the route table in concrete runs\<close>

text \<open>
  A handle whose every operation fails with the same error and changes nothing, as when
  the \<^verbatim>\<open>iptables\<close> binary cannot be run or the lock is held.
\<close>

definition failingIPT :: "error \<Rightarrow> 's iptabler" where
  "failingIPT e =
     \<lparr>NewChain = (\<lambda>t c s. (Some e, s)), ClearChain = (\<lambda>t c s. (Some e, s)),
      DeleteChain = (\<lambda>t c s. (Some e, s)), AppendUnique = (\<lambda>t c rs s. (Some e, s)),
      Delete = (\<lambda>t c rs s. (Some e, s))\<rparr>"





text \<open>A route config whose delete fails with the given error.\<close>

definition deleteFailsRoute :: "error \<Rightarrow> (unit, unit) IPRouteConfig" where
  "deleteFailsRoute e =
     \<lparr>Route = (), RouteAdd = (\<lambda>route s. (None, s)), RouteDel = (\<lambda>route s. (Some e, s))\<rparr>"

text \<open>
  An in-memory packet filter: the chains of each table with their rule specs, in
  order. A new chain is refused when it exists (exit status 1); clearing empties the
  chain and creates it when missing; a chain is deleted when it exists and is empty;
  an append adds the spec unless the chain holds it; a delete removes the first copy of
  the spec.
\<close>

type_synonym fakeTables = "((string \<times> string) \<times> IPTablesRuleSpec list) list"

definition noChain :: error where
  "noChain = IptablesError 1 ''iptables: No chain/target/match by that name.''"

definition badRule :: error where
  "badRule =
     IptablesError 1 ''iptables: Bad rule (does a matching rule exist in that chain?).''"

definition fakeIPT :: "fakeTables iptabler" where
  "fakeIPT =
     \<lparr>NewChain = (\<lambda>t c m. case map_of m (t, c) of
          Some specs \<Rightarrow> (Some (IptablesError 1 ''iptables: Chain already exists.''), m)
        | None \<Rightarrow> (None, AList.update (t, c) [] m)),
      ClearChain = (\<lambda>t c m. (None, AList.update (t, c) [] m)),
      DeleteChain = (\<lambda>t c m. case map_of m (t, c) of
          None \<Rightarrow> (Some noChain, m)
        | Some specs \<Rightarrow>
            if specs = [] then (None, AList.delete (t, c) m)
            else (Some (IptablesError 1 ''iptables: Directory not empty.''), m)),
      AppendUnique = (\<lambda>t c rs m. case map_of m (t, c) of
          None \<Rightarrow> (Some noChain, m)
        | Some specs \<Rightarrow>
            if rs \<in> set specs then (None, m)
            else (None, AList.update (t, c) (specs @ [rs]) m)),
      Delete = (\<lambda>t c rs m. case map_of m (t, c) of
          None \<Rightarrow> (Some noChain, m)
        | Some specs \<Rightarrow>
            if rs \<in> set specs then (None, AList.update (t, c) (remove1 rs specs) m)
            else (Some badRule, m))\<rparr>"

definition masqueradeRule :: IPTablesRuleSpec where
  "masqueradeRule = [''-j'', ''MASQUERADE'']"

definition postroutingConfig :: "fakeTables IPTablesRuleConfig" where
  "postroutingConfig =
     \<lparr>Spec = \<lparr>TableName = ''nat'', ChainName = ''POSTROUTING'', IsDefaultChain = True,
              IPT = fakeIPT\<rparr>,
      RuleSpecs = [masqueradeRule], IPT = fakeIPT\<rparr>"

definition ownChainConfig :: "fakeTables IPTablesRuleConfig" where
  "ownChainConfig =
     \<lparr>Spec = \<lparr>TableName = ''nat'', ChainName = ''NETD-MASQ'', IsDefaultChain = False,
              IPT = fakeIPT\<rparr>,
      RuleSpecs = [masqueradeRule], IPT = fakeIPT\<rparr>"

text \<open>A config over the in-memory packet filter, for any chain and rule specs.\<close>

definition fakeChainConfig ::
    "string \<Rightarrow> string \<Rightarrow> bool \<Rightarrow> IPTablesRuleSpec list \<Rightarrow> fakeTables IPTablesRuleConfig" where
  "fakeChainConfig t c d rss =
     \<lparr>Spec = \<lparr>TableName = t, ChainName = c, IsDefaultChain = d, IPT = fakeIPT\<rparr>,
      RuleSpecs = rss, IPT = fakeIPT\<rparr>"

definition lockedConfig :: "fakeTables IPTablesRuleConfig" where
  "lockedConfig =
     \<lparr>Spec = \<lparr>TableName = ''nat'', ChainName = ''NETD-MASQ'', IsDefaultChain = False,
              IPT = failingIPT (IptablesError 4 ''iptables: Resource temporarily unavailable.'')\<rparr>,
      RuleSpecs = [masqueradeRule],
      IPT = failingIPT (IptablesError 4 ''iptables: Resource temporarily unavailable.'')\<rparr>"

definition unrunnableConfig :: "unit IPTablesRuleConfig" where
  "unrunnableConfig =
     \<lparr>Spec = \<lparr>TableName = ''nat'', ChainName = ''POSTROUTING'', IsDefaultChain = True,
              IPT = failingIPT (OtherError ''exec: iptables: executable file not found in PATH'')\<rparr>,
      RuleSpecs = [masqueradeRule],
      IPT = failingIPT (OtherError ''exec: iptables: executable file not found in PATH'')\<rparr>"

section \<open>Worlds in which a config has nothing left to do\<close>

text \<open>
  What the disabled loop on a default chain does with the result of one delete: it
  goes on after nil, after an \<^verbatim>\<open>*iptables.Error\<close> with exit status 2 and after one whose
  string contains \<^verbatim>\<open>No chain/target/match\<close>; otherwise it stops, with a panic when the
  error is no \<^verbatim>\<open>*iptables.Error\<close>.
\<close>

definition deleteTolerated :: "error option \<Rightarrow> bool" where
  "deleteTolerated e =
     (case e of
        None \<Rightarrow> True
      | Some err \<Rightarrow>
          (case asIptablesError err of
             None \<Rightarrow> False
           | Some (status, msg) \<Rightarrow> status = 2 \<or> strings_Contains msg ''No chain/target/match''))"

definition deleteStops :: "error option \<Rightarrow> error option outcome" where
  "deleteStops e =
     (case e of
        None \<Rightarrow> Return None
      | Some err \<Rightarrow> (case asIptablesError err of None \<Rightarrow> Panic | Some p \<Rightarrow> Return (Some err)))"


text \<open>The world after each config of a list has run in turn.\<close>

definition worldAfter :: "('r, 's) Config list \<Rightarrow> bool \<Rightarrow> 's \<Rightarrow> 's" where
  "worldAfter cs enabled s = foldl (\<lambda>w c. snd (Ensure c enabled w)) s cs"

text \<open>A Set of three packet-filter configs and two nodes, for concrete runs.\<close>

definition masqueradeSet :: "(unit, fakeTables) Set" where
  "masqueradeSet =
     \<lparr>Enabled = True, FeatureName = ''masquerade'',
      Configs = [IPTablesRule ownChainConfig, IPTablesRule lockedConfig,
                 IPTablesRule postroutingConfig]\<rparr>"

definition testNode :: Node where
  "testNode =
     \<lparr>PodCIDR = ''10.124.0.0/16'', PodCIDRs = [],
      Addresses = [\<lparr>Type = NodeInternalIP, Address = ''10.128.0.24''\<rparr>]\<rparr>"

definition listNode :: Node where
  "listNode =
     \<lparr>PodCIDR = [], PodCIDRs = [''10.52.1.0/24''],
      Addresses = [\<lparr>Type = NodeExternalIP, Address = ''34.1.2.3''\<rparr>,
                   \<lparr>Type = NodeInternalIP, Address = ''10.128.0.24''\<rparr>]\<rparr>"

section \<open>Properties\<close>

subsection \<open>Library functions\<close>

text \<open>\<^verbatim>\<open>strings.Contains\<close> is the sublist relation of the list library.\<close>

lemma strings_Contains_sublist: "strings_Contains s substr = sublist substr s"
  by (induction s) (auto simp: sublist_Cons_right)

subsection \<open>Equality without priority\<close>

text \<open>
  C2. The equality used for counting duplicates holds exactly when the two rules agree
  on every field other than \<open>Priority\<close> (the extension slot included); two rules that
  differ only in \<open>Priority\<close> are the same rule.
\<close>

theorem isRuleEqualWithoutPriority_iff_other_fields:
  "isRuleEqualWithoutPriority r1 r2 =
     (Family r1 = Family r2 \<and> Table r1 = Table r2 \<and> Mark r1 = Mark r2 \<and>
      netlink_Rule.Mask r1 = netlink_Rule.Mask r2 \<and> Tos r1 = Tos r2 \<and>
      TunID r1 = TunID r2 \<and> Goto r1 = Goto r2 \<and> Src r1 = Src r2 \<and> Dst r1 = Dst r2 \<and>
      Flow r1 = Flow r2 \<and> IifName r1 = IifName r2 \<and> OifName r1 = OifName r2 \<and>
      SuppressIfgroup r1 = SuppressIfgroup r2 \<and>
      SuppressPrefixlen r1 = SuppressPrefixlen r2 \<and> Invert r1 = Invert r2 \<and>
      Dport r1 = Dport r2 \<and> Sport r1 = Sport r2 \<and>
      netlink_Rule.more r1 = netlink_Rule.more r2)
   \<and> isRuleEqualWithoutPriority (r\<lparr>Priority := p\<rparr>) (r\<lparr>Priority := q\<rparr>)"
  by (cases r1, cases r2) (auto simp: isRuleEqualWithoutPriority_def)

subsection \<open>The convergence loop\<close>

lemma ensureLoop_at_target: "ensureLoop r n n e s = (e, s)"
  by (subst ensureLoop.simps) simp

lemma count_foldl:
  "foldl (\<lambda>count rule. if P rule then count + 1 else count) (c::int) xs
     = c + int (length (filter P xs))"
  by (induction xs arbitrary: c) auto

lemma IPRuleConfig_count_listed:
  "RuleList r AF_INET s = ((rs, None), s') \<Longrightarrow>
   IPRuleConfig_count r s = ((int (matchingRules r rs), None), s')"
  by (simp add: IPRuleConfig_count_def matchingRules_def count_foldl)

lemma isRuleEqualWithoutPriority_refl: "isRuleEqualWithoutPriority x x"
  by (simp add: isRuleEqualWithoutPriority_def)

text \<open>
  One run of the loop against a recording config: it extends the log by exactly
  \<open>|n - t|\<close> calls, all deletes or all adds of the config's rule, it computes what the
  plain config computes, and its result is the result of the last call.
\<close>

lemma ensureLoop_recording:
  "ensureLoop (recordingRules r) n t e (s, log) = (e', (s', log')) \<Longrightarrow> k = nat \<bar>n - t\<bar> \<Longrightarrow>
   \<exists>new. log' = log @ new \<and> length new = k \<and> ensureLoop r n t e s = (e', s') \<and>
     (t < n \<longrightarrow> (\<forall>c\<in>set new. \<exists>x. c = RuleDelCall (Rule r) x) \<and> e' = callError (last new)) \<and>
     (n < t \<longrightarrow> (\<forall>c\<in>set new. \<exists>x. c = RuleAddCall (Rule r) x) \<and>
        e' = (if os_IsExist (callError (last new)) then None else callError (last new))) \<and>
     (n = t \<longrightarrow> e' = e \<and> s' = s)"
proof (induction k arbitrary: n e s log)
  case 0
  then have "n = t" by simp
  with 0 show ?case by (simp add: ensureLoop_at_target)
next
  case (Suc k)
  then have ne: "n \<noteq> t" by auto
  show ?case
  proof (cases "t < n")
    case True
    obtain e1 s1 where d: "RuleDel r (Rule r) s = (e1, s1)"
      by (cases "RuleDel r (Rule r) s")
    from Suc.prems(1) True d
    have run: "ensureLoop (recordingRules r) (n - 1) t e1 (s1, log @ [RuleDelCall (Rule r) e1])
        = (e', (s', log'))"
      by (subst (asm) ensureLoop.simps) (simp add: recordingRules_def)
    from Suc.prems(2) True have k: "k = nat \<bar>(n - 1) - t\<bar>" by simp
    from Suc.IH[OF run k] obtain new where
      new: "log' = (log @ [RuleDelCall (Rule r) e1]) @ new" "length new = k"
        "ensureLoop r (n - 1) t e1 s1 = (e', s')"
        "t < n - 1 \<longrightarrow> (\<forall>c\<in>set new. \<exists>x. c = RuleDelCall (Rule r) x) \<and> e' = callError (last new)"
        "n - 1 = t \<longrightarrow> e' = e1 \<and> s' = s1"
      by blast
    have plain: "ensureLoop r n t e s = (e', s')"
      using True d new(3) by (subst ensureLoop.simps) simp
    have "new = [] \<longleftrightarrow> n - 1 = t" using new(2) k True by auto
    with new True plain show ?thesis
      by (intro exI[of _ "RuleDelCall (Rule r) e1 # new"]) (cases "n - 1 = t"; simp)
  next
    case False
    with ne have lt: "n < t" by simp
    define a where "a e = (if os_IsExist e then None else e)" for e :: "error option"
    obtain e1 s1 where d: "RuleAdd r (Rule r) s = (e1, s1)"
      by (cases "RuleAdd r (Rule r) s")
    from Suc.prems(1) lt d
    have run: "ensureLoop (recordingRules r) (n + 1) t (a e1) (s1, log @ [RuleAddCall (Rule r) e1])
        = (e', (s', log'))"
      by (subst (asm) ensureLoop.simps) (simp add: recordingRules_def a_def)
    from Suc.prems(2) lt have k: "k = nat \<bar>(n + 1) - t\<bar>" by simp
    from Suc.IH[OF run k] obtain new where
      new: "log' = (log @ [RuleAddCall (Rule r) e1]) @ new" "length new = k"
        "ensureLoop r (n + 1) t (a e1) s1 = (e', s')"
        "n + 1 < t \<longrightarrow> (\<forall>c\<in>set new. \<exists>x. c = RuleAddCall (Rule r) x) \<and>
           e' = a (callError (last new))"
        "n + 1 = t \<longrightarrow> e' = a e1 \<and> s' = s1"
      unfolding a_def by blast
    have plain: "ensureLoop r n t e s = (e', s')"
      using lt d new(3) by (subst ensureLoop.simps) (simp add: a_def)
    have "new = [] \<longleftrightarrow> n + 1 = t" using new(2) k lt by auto
    with new lt plain show ?thesis
      unfolding a_def
      by (intro exI[of _ "RuleAddCall (Rule r) e1 # new"]) (cases "n + 1 = t"; simp)
  qed
qed

text \<open>A recorded run of \<open>Ensure\<close> returns what the plain run returns.\<close>

lemma IPRuleConfig_count_recording:
  "IPRuleConfig_count (recordingRules r) (s, log) =
     (case IPRuleConfig_count r s of
        (res, s') \<Rightarrow> (res, (s', log @ [RuleListCall AF_INET (snd res)])))"
proof (cases "RuleList r AF_INET s")
  case (Pair a s1)
  obtain listed e where a: "a = (listed, e)" by (cases a)
  show ?thesis
    using Pair a by (cases e) (simp_all add: IPRuleConfig_count_def recordingRules_def)
qed

lemma ensureHelper_recording:
  assumes "ensureHelper (recordingRules r) t (s, log) = (e, (s', log'))"
  shows "ensureHelper r t s = (e, s')"
proof (cases "IPRuleConfig_count r s")
  case (Pair res s1)
  obtain n e0 where res: "res = (n, e0)" by (cases res)
  show ?thesis
  proof (cases e0)
    case (Some err)
    with assms Pair res show ?thesis
      by (auto simp: ensureHelper_def IPRuleConfig_count_recording)
  next
    case None
    with assms Pair res
    have "ensureLoop (recordingRules r) n t None (s1, log @ [RuleListCall AF_INET None]) = (e, (s', log'))"
      by (simp add: ensureHelper_def IPRuleConfig_count_recording)
    from ensureLoop_recording[OF this refl] have "ensureLoop r n t None s1 = (e, s')" by blast
    with None Pair res show ?thesis by (simp add: ensureHelper_def)
  qed
qed

lemma IPRuleConfig_Ensure_recording:
  assumes "IPRuleConfig_Ensure (recordingRules r) b (s, log) = (res, (s', log'))"
  shows "IPRuleConfig_Ensure r b s = (res, s')"
proof -
  define t :: int where "t = (if b then 1 else 0)"
  from assms obtain e where "res = Return e" "ensureHelper (recordingRules r) t (s, log) = (e, (s', log'))"
    by (auto simp: IPRuleConfig_Ensure_def t_def split: prod.splits if_splits)
  with ensureHelper_recording[OF this(2)] show ?thesis
    by (auto simp: IPRuleConfig_Ensure_def t_def)
qed

text \<open>
  Under the contract, a run whose every logged call succeeded moves the number of
  matching rules from the listed count to the target.
\<close>

lemma ensureLoop_converges:
  assumes c: "ruleTableContract r table"
  shows "ensureLoop (recordingRules r) n t e (s, log) = (e', (s', log')) \<Longrightarrow>
     k = nat \<bar>n - t\<bar> \<Longrightarrow> \<forall>c\<in>set log'. callError c = None \<Longrightarrow>
     int (matchingRules r (table s)) = n \<Longrightarrow> int (matchingRules r (table s')) = t"
proof (induction k arbitrary: n e s log)
  case 0
  then have "n = t" by simp
  with 0 show ?case by (simp add: ensureLoop_at_target)
next
  case (Suc k)
  then have ne: "n \<noteq> t" by auto
  show ?case
  proof (cases "t < n")
    case True
    obtain e1 s1 where d: "RuleDel r (Rule r) s = (e1, s1)"
      by (cases "RuleDel r (Rule r) s")
    from Suc.prems(1) True d
    have run: "ensureLoop (recordingRules r) (n - 1) t e1 (s1, log @ [RuleDelCall (Rule r) e1])
        = (e', (s', log'))"
      by (subst (asm) ensureLoop.simps) (simp add: recordingRules_def)
    from Suc.prems(2) True have k: "k = nat \<bar>(n - 1) - t\<bar>" by simp
    from ensureLoop_recording[OF run k] have "RuleDelCall (Rule r) e1 \<in> set log'" by auto
    with Suc.prems(3) have "e1 = None" by force
    with c d have "matchingRules r (table s1) + 1 = matchingRules r (table s)"
      by (simp add: ruleTableContract_def)
    with Suc.prems(4) have "int (matchingRules r (table s1)) = n - 1" by simp
    from Suc.IH[OF run k Suc.prems(3) this] show ?thesis .
  next
    case False
    with ne have lt: "n < t" by simp
    define a where "a e = (if os_IsExist e then None else e)" for e :: "error option"
    obtain e1 s1 where d: "RuleAdd r (Rule r) s = (e1, s1)"
      by (cases "RuleAdd r (Rule r) s")
    from Suc.prems(1) lt d
    have run: "ensureLoop (recordingRules r) (n + 1) t (a e1) (s1, log @ [RuleAddCall (Rule r) e1])
        = (e', (s', log'))"
      by (subst (asm) ensureLoop.simps) (simp add: recordingRules_def a_def)
    from Suc.prems(2) lt have k: "k = nat \<bar>(n + 1) - t\<bar>" by simp
    from ensureLoop_recording[OF run k] have "RuleAddCall (Rule r) e1 \<in> set log'" by auto
    with Suc.prems(3) have "e1 = None" by force
    with c d have "matchingRules r (table s1) = matchingRules r (table s) + 1"
      by (simp add: ruleTableContract_def)
    with Suc.prems(4) have "int (matchingRules r (table s1)) = n + 1" by simp
    from Suc.IH[OF run k Suc.prems(3) this] show ?thesis .
  qed
qed

lemma filter_remove1_length:
  "x \<in> set xs \<Longrightarrow> P x \<Longrightarrow> Suc (length (filter P (remove1 x xs))) = length (filter P xs)"
  by (induction xs) auto

lemma fakeKernel_contract: "ruleTableContract (fakeRuleConfig x) rules"
  unfolding ruleTableContract_def
proof (intro conjI allI impI)
  fix s rs s' assume "RuleList (fakeRuleConfig x) AF_INET s = ((rs, None), s')"
  then show "rs = rules s" "rules s' = rules s"
    by (auto simp: fakeRuleConfig_def fakeRuleList_def)
next
  fix s s' assume "RuleAdd (fakeRuleConfig x) (Rule (fakeRuleConfig x)) s = (None, s')"
  then show "matchingRules (fakeRuleConfig x) (rules s')
      = matchingRules (fakeRuleConfig x) (rules s) + 1"
    by (auto simp: fakeRuleConfig_def fakeRuleAdd_def nextFault_def matchingRules_def
          isRuleEqualWithoutPriority_refl split: list.splits option.splits if_splits)
next
  fix s s' assume "RuleDel (fakeRuleConfig x) (Rule (fakeRuleConfig x)) s = (None, s')"
  then show "matchingRules (fakeRuleConfig x) (rules s') + 1
      = matchingRules (fakeRuleConfig x) (rules s)"
    by (auto simp: fakeRuleConfig_def fakeRuleDel_def nextFault_def matchingRules_def
          isRuleEqualWithoutPriority_refl filter_remove1_length
          split: list.splits option.splits if_splits)
qed

lemmas fakeRule_simps =
  ensureLoop.simps IPRuleConfig_Ensure_def ensureHelper_def IPRuleConfig_count_def recordingRules_def
  fakeRuleConfig_def fakeRuleList_def fakeRuleDel_def fakeRuleAdd_def nextFault_def
  isRuleEqualWithoutPriority_refl

text \<open>
  C1. For every policy-rule config and every world, with any number of matching rules
  in its table: if the three operations keep the contract of the rule table and every
  call that \<open>Ensure\<close> issues succeeds, then \<open>Ensure(true)\<close> leaves exactly one matching
  rule in the table and \<open>Ensure(false)\<close> none, and the call returns nil.
\<close>

theorem Ensure_converges_when_calls_succeed:
  assumes c: "ruleTableContract r table"
      and run: "IPRuleConfig_Ensure (recordingRules r) enabled (s, []) = (res, (s', log))"
      and ok: "\<forall>c\<in>set log. callError c = None"
  shows "matchingRules r (table s') = (if enabled then 1 else 0) \<and> res = Return None \<and>
         IPRuleConfig_Ensure r enabled s = (res, s')"
proof -
  note plain = IPRuleConfig_Ensure_recording[OF run]
  define t :: int where "t = (if enabled then 1 else 0)"
  obtain rs e0 s0 where l: "RuleList r AF_INET s = ((rs, e0), s0)"
    by (metis surj_pair)
  from run obtain err where res: "res = Return err"
    and run1: "ensureHelper (recordingRules r) t (s, []) = (err, (s', log))"
    by (auto simp: IPRuleConfig_Ensure_def t_def split: prod.splits if_splits)
  show ?thesis
  proof (cases e0)
    case (Some e)
    with run1 l have "log = [RuleListCall AF_INET (Some e)]"
      by (auto simp: ensureHelper_def IPRuleConfig_count_def recordingRules_def
            split: prod.splits)
    with ok show ?thesis by simp
  next
    case None
    with l c have rs: "rs = table s" "table s0 = table s"
      by (auto simp: ruleTableContract_def)
    from l None have "RuleList (recordingRules r) AF_INET (s, [])
        = ((rs, None), (s0, [RuleListCall AF_INET None]))"
      by (simp add: recordingRules_def)
    from IPRuleConfig_count_listed[OF this] run1
    have loop: "ensureLoop (recordingRules r) (int (matchingRules (recordingRules r) rs)) t None
        (s0, [RuleListCall AF_INET None]) = (err, (s', log))"
      by (simp add: ensureHelper_def)
    have m: "matchingRules (recordingRules r) rs = matchingRules r (table s0)"
      by (simp add: matchingRules_def recordingRules_def rs)
    from ensureLoop_converges[OF c loop[unfolded m] refl ok refl]
    have conv: "int (matchingRules r (table s')) = t" .
    from ensureLoop_recording[OF loop refl] obtain new where
      new: "log = [RuleListCall AF_INET None] @ new"
        "t < int (matchingRules (recordingRules r) rs) \<longrightarrow> err = callError (last new)"
        "int (matchingRules (recordingRules r) rs) < t \<longrightarrow>
           err = (if os_IsExist (callError (last new)) then None else callError (last new))"
        "int (matchingRules (recordingRules r) rs) = t \<longrightarrow> err = None"
        "length new = nat \<bar>int (matchingRules (recordingRules r) rs) - t\<bar>"
      by blast
    have "err = None"
    proof (cases "int (matchingRules (recordingRules r) rs) = t")
      case True
      with new show ?thesis by simp
    next
      case False
      with new(5) have "new \<noteq> []" by auto
      then have "last new \<in> set log" using new(1) by simp
      with ok have "callError (last new) = None" by blast
      with new False show ?thesis by (cases "t < int (matchingRules (recordingRules r) rs)") auto
    qed
    with conv res plain show ?thesis by (auto simp: t_def split: if_splits)
  qed
qed

theorem Ensure_converges_witness:
  "ruleTableContract (fakeRuleConfig localRule) rules \<and>
   IPRuleConfig_Ensure (recordingRules (fakeRuleConfig localRule)) True
     (\<lparr>rules = [localRule\<lparr>Priority := 100\<rparr>, localRule, localRule], faults = []\<rparr>, [])
   = (Return None,
      (\<lparr>rules = [localRule\<lparr>Priority := 100\<rparr>], faults = []\<rparr>,
       [RuleListCall AF_INET None, RuleDelCall localRule None, RuleDelCall localRule None])) \<and>
   matchingRules (fakeRuleConfig localRule) [localRule\<lparr>Priority := 100\<rparr>] = 1 \<and>
   IPRuleConfig_Ensure (recordingRules (fakeRuleConfig localRule)) False
     (\<lparr>rules = [localRule], faults = []\<rparr>, [])
   = (Return None,
      (\<lparr>rules = [], faults = []\<rparr>, [RuleListCall AF_INET None, RuleDelCall localRule None])) \<and>
   matchingRules (fakeRuleConfig localRule) [] = 0"
proof -
  have ne: "localRule\<lparr>Priority := 100\<rparr> \<noteq> localRule"
    by (simp add: localRule_def)
  have eq: "isRuleEqualWithoutPriority (localRule\<lparr>Priority := 100\<rparr>) localRule"
    by (simp add: isRuleEqualWithoutPriority_def localRule_def)
  have run1: "IPRuleConfig_Ensure (recordingRules (fakeRuleConfig localRule)) True
     (\<lparr>rules = [localRule\<lparr>Priority := 100\<rparr>, localRule, localRule], faults = []\<rparr>, [])
   = (Return None,
      (\<lparr>rules = [localRule\<lparr>Priority := 100\<rparr>], faults = []\<rparr>,
       [RuleListCall AF_INET None, RuleDelCall localRule None, RuleDelCall localRule None]))"
    using ne by (simp add: fakeRule_simps eq)
  have run2: "IPRuleConfig_Ensure (recordingRules (fakeRuleConfig localRule)) False
     (\<lparr>rules = [localRule], faults = []\<rparr>, [])
   = (Return None,
      (\<lparr>rules = [], faults = []\<rparr>, [RuleListCall AF_INET None, RuleDelCall localRule None]))"
    by (simp add: fakeRule_simps)
  from Ensure_converges_when_calls_succeed[OF fakeKernel_contract run1]
  have "matchingRules (fakeRuleConfig localRule) [localRule\<lparr>Priority := 100\<rparr>] = 1"
    by simp
  moreover
  from Ensure_converges_when_calls_succeed[OF fakeKernel_contract run2]
  have "matchingRules (fakeRuleConfig localRule) [] = 0"
    by simp
  ultimately show ?thesis using run1 run2 fakeKernel_contract by simp
qed

text \<open>
  C3 (amended). The loop, started with \<open>initialCount\<close> and \<open>targetCount\<close>, always
  returns, after exactly \<open>|initialCount - targetCount|\<close> rounds of one call each. Above
  the target every call is a delete of the config's rule, whether or not an earlier
  delete failed, and the value returned is the result of the last delete: nil when that
  delete succeeded, also after an earlier failure. Below the target every call is an
  add, and the value returned is the last add's error, with an error that
  \<^verbatim>\<open>os.IsExist\<close> accepts replaced by nil. At the target no call is made and nil is
  returned.
\<close>

theorem ensureLoop_single_pass:
  assumes "ensureLoop (recordingRules r) initialCount targetCount None (s, []) = (err, (s', log))"
  shows "length log = nat \<bar>initialCount - targetCount\<bar> \<and>
     (targetCount < initialCount \<longrightarrow>
        (\<forall>c\<in>set log. \<exists>x. c = RuleDelCall (Rule r) x) \<and> err = callError (last log)) \<and>
     (initialCount < targetCount \<longrightarrow>
        (\<forall>c\<in>set log. \<exists>x. c = RuleAddCall (Rule r) x) \<and>
        err = (if os_IsExist (callError (last log)) then None else callError (last log))) \<and>
     (initialCount = targetCount \<longrightarrow> err = None \<and> s' = s) \<and>
     ensureLoop r initialCount targetCount None s = (err, s')"
  using ensureLoop_recording[OF assms refl] by auto

theorem ensureLoop_single_pass_witness:
  "ensureLoop (recordingRules (fakeRuleConfig localRule)) 3 1 None
     (\<lparr>rules = [localRule, localRule, localRule], faults = [Some (Errno ENOBUFS), None]\<rparr>, [])
   = (None, (\<lparr>rules = [localRule, localRule], faults = []\<rparr>,
        [RuleDelCall localRule (Some (Errno ENOBUFS)), RuleDelCall localRule None])) \<and>
   length [RuleDelCall localRule (Some (Errno ENOBUFS)), RuleDelCall localRule None]
     = nat \<bar>3 - 1\<bar> \<and>
   ensureLoop (recordingRules (fakeRuleConfig localRule)) 0 1 None
     (\<lparr>rules = [localRule], faults = []\<rparr>, [])
   = (None, (\<lparr>rules = [localRule], faults = []\<rparr>,
        [RuleAddCall localRule (Some (Errno EEXIST))])) \<and>
   os_IsExist (Some (Errno EEXIST))"
proof -
  have run1: "ensureLoop (recordingRules (fakeRuleConfig localRule)) 3 1 None
     (\<lparr>rules = [localRule, localRule, localRule], faults = [Some (Errno ENOBUFS), None]\<rparr>, [])
   = (None, (\<lparr>rules = [localRule, localRule], faults = []\<rparr>,
        [RuleDelCall localRule (Some (Errno ENOBUFS)), RuleDelCall localRule None]))"
    by (simp add: fakeRule_simps)
  have run2: "ensureLoop (recordingRules (fakeRuleConfig localRule)) 0 1 None
     (\<lparr>rules = [localRule], faults = []\<rparr>, [])
   = (None, (\<lparr>rules = [localRule], faults = []\<rparr>,
        [RuleAddCall localRule (Some (Errno EEXIST))]))"
    by (simp add: fakeRule_simps os_IsExist_def)
  from ensureLoop_single_pass[OF run1] ensureLoop_single_pass[OF run2] run1 run2
  show ?thesis by (simp add: os_IsExist_def)
qed

text \<open>
  The claim as stated fails: with two matching rules, a first delete that fails with
  \<^verbatim>\<open>ENOBUFS\<close> and a second that succeeds, \<open>Ensure(false)\<close> returns nil although a delete
  failed and one matching rule is left.
\<close>

theorem failed_delete_masked_counterexample:
  "IPRuleConfig_Ensure (recordingRules (fakeRuleConfig localRule)) False
     (\<lparr>rules = [localRule, localRule], faults = [Some (Errno ENOBUFS), None]\<rparr>, [])
   = (Return None,
      (\<lparr>rules = [localRule], faults = []\<rparr>,
       [RuleListCall AF_INET None, RuleDelCall localRule (Some (Errno ENOBUFS)),
        RuleDelCall localRule None]))"
  by (simp add: fakeRule_simps)

subsection \<open>Routes\<close>

text \<open>
  C10. \<open>Ensure(false)\<close> on a route config returns normally exactly when the error of
  \<^verbatim>\<open>RouteDel\<close> is nil or a \<^verbatim>\<open>syscall.Errno\<close>: on a delete error of any other dynamic
  type the unchecked type assertion panics and the error does not reach the caller.
\<close>

theorem IPRouteConfig_Ensure_disabled_returns_iff_Errno:
  "(fst (IPRouteConfig_Ensure r False s) \<noteq> Panic) =
     (fst (RouteDel r (Route r) s) = None \<or>
      (\<exists>n. fst (RouteDel r (Route r) s) = Some (Errno n)))"
proof (cases "RouteDel r (Route r) s")
  case (Pair e s1)
  show ?thesis
  proof (cases e)
    case None
    with Pair show ?thesis by (simp add: IPRouteConfig_Ensure_def)
  next
    case (Some err)
    with Pair show ?thesis by (cases err) (simp_all add: IPRouteConfig_Ensure_def)
  qed
qed

text \<open>
  C4 fails on the code where the delete error is no \<^verbatim>\<open>syscall.Errno\<close>: for the error
  that \<^verbatim>\<open>netlink.RouteDel\<close> builds for a route without destination, source and gateway,
  \<open>Ensure(false)\<close> panics instead of returning the error unchanged.
\<close>

theorem route_delete_error_not_returned:
  "IPRouteConfig_Ensure
     (deleteFailsRoute (OtherError ''one of Dst.IP, Src, or Gw must not be nil'')) False ()
   = (Panic, ())"
  by (simp add: IPRouteConfig_Ensure_def deleteFailsRoute_def)

subsection \<open>Packet-filter chains\<close>

lemma fatalUnlessStatus1_iff: "fatalUnlessStatus1 e \<longleftrightarrow> (\<forall>msg. e \<noteq> IptablesError 1 msg)"
  by (cases e) (auto simp: fatalUnlessStatus1_def)

lemma deleteStops_not_nil: "\<not> deleteTolerated e \<Longrightarrow> deleteStops e \<noteq> Return None"
  by (auto simp: deleteTolerated_def deleteStops_def split: option.splits)

lemma deleteRuleSpecs_step:
  assumes "Delete ipt t c rs s = (e, s1)"
  shows "deleteRuleSpecs ipt t c (rs # rss) s =
     (if deleteTolerated e then deleteRuleSpecs ipt t c rss s1 else (deleteStops e, s1))"
proof (cases e)
  case None
  with assms show ?thesis by (simp add: deleteTolerated_def)
next
  case (Some err)
  show ?thesis
  proof (cases "asIptablesError err")
    case None
    with Some assms show ?thesis by (simp add: deleteTolerated_def deleteStops_def)
  next
    case (Some p)
    obtain status msg where "p = (status, msg)" by (cases p)
    with Some \<open>e = Some err\<close> assms show ?thesis
      by (simp add: deleteTolerated_def deleteStops_def)
  qed
qed

text \<open>
  The disabled loop against a recording handle: it logs a delete for each rule spec in
  order, up to the one it stops at, and computes what the plain handle computes.
\<close>

lemma deleteRuleSpecs_recording:
  "deleteRuleSpecs (recordingIPT ipt) t c rss (s, log) = (res, (s', log')) \<Longrightarrow>
   \<exists>k \<le> length rss. log' = log @ map (DeleteCall t c) (take k rss) \<and>
     (res = Return None \<longrightarrow> k = length rss) \<and> deleteRuleSpecs ipt t c rss s = (res, s')"
proof (induction rss arbitrary: s log)
  case Nil
  then show ?case by simp
next
  case (Cons rs rss)
  obtain e s1 where d: "Delete ipt t c rs s = (e, s1)"
    by (cases "Delete ipt t c rs s")
  then have rd: "Delete (recordingIPT ipt) t c rs (s, log) = (e, (s1, log @ [DeleteCall t c rs]))"
    by (simp add: recordingIPT_def)
  note plain = deleteRuleSpecs_step[OF d, of rss]
  note rec = deleteRuleSpecs_step[OF rd, of rss]
  show ?case
  proof (cases "deleteTolerated e")
    case False
    with rec Cons.prems have "res = deleteStops e" "s' = s1" "log' = log @ [DeleteCall t c rs]"
      by simp_all
    moreover from False have "deleteStops e \<noteq> Return None" by (rule deleteStops_not_nil)
    ultimately show ?thesis using plain False
      by (intro exI[of _ 1]) simp
  next
    case True
    with rec Cons.prems
    have "deleteRuleSpecs (recordingIPT ipt) t c rss (s1, log @ [DeleteCall t c rs])
        = (res, (s', log'))" by simp
    from Cons.IH[OF this] obtain k where "k \<le> length rss"
      "log' = (log @ [DeleteCall t c rs]) @ map (DeleteCall t c) (take k rss)"
      "res = Return None \<longrightarrow> k = length rss" "deleteRuleSpecs ipt t c rss s1 = (res, s')"
      by blast
    with plain True show ?thesis by (intro exI[of _ "Suc k"]) simp
  qed
qed

lemma appendRuleSpecs_recording:
  "appendRuleSpecs (recordingIPT ipt) t c rss (s, log) = (res, (s', log')) \<Longrightarrow>
   appendRuleSpecs ipt t c rss s = (res, s')"
proof (induction rss arbitrary: s log)
  case Nil
  then show ?case by simp
next
  case (Cons rs rss)
  obtain e s1 where a: "AppendUnique ipt t c rs s = (e, s1)"
    by (cases "AppendUnique ipt t c rs s")
  then have ra: "AppendUnique (recordingIPT ipt) t c rs (s, log) = (e, (s1, log @ [AppendUniqueCall t c rs]))"
    by (simp add: recordingIPT_def)
  show ?case
  proof (cases e)
    case None
    with Cons.prems ra have "appendRuleSpecs (recordingIPT ipt) t c rss (s1, log @ [AppendUniqueCall t c rs]) = (res, (s', log'))"
      by simp
    from Cons.IH[OF this] a None show ?thesis by simp
  next
    case (Some err)
    with Cons.prems ra a show ?thesis by simp
  qed
qed

lemma IPTablesChainSpec_ensure_recording:
  "IPTablesChainSpec_ensure (Spec (recordingIPTablesRuleConfig r)) b (s, log) = (e, (s', log')) \<Longrightarrow>
   IPTablesChainSpec_ensure (Spec r) b s = (e, s')"
  by (auto simp: IPTablesChainSpec_ensure_def recordingIPTablesRuleConfig_def recordingIPT_def
        split: if_splits prod.splits option.splits)

lemma IPTablesRuleConfig_Ensure_recording:
  assumes "IPTablesRuleConfig_Ensure (recordingIPTablesRuleConfig r) b (s, log) = (res, (s', log'))"
  shows "IPTablesRuleConfig_Ensure r b s = (res, s')"
proof -
  obtain e s1 log1 where c: "IPTablesChainSpec_ensure (Spec (recordingIPTablesRuleConfig r)) b (s, log) = (e, (s1, log1))"
    by (metis surj_pair)
  note c' = IPTablesChainSpec_ensure_recording[OF c]
  have sel: "TableName (Spec (recordingIPTablesRuleConfig r)) = TableName (Spec r)"
    "ChainName (Spec (recordingIPTablesRuleConfig r)) = ChainName (Spec r)"
    "IsDefaultChain (Spec (recordingIPTablesRuleConfig r)) = IsDefaultChain (Spec r)"
    "RuleSpecs (recordingIPTablesRuleConfig r) = RuleSpecs r"
    "IPTablesRuleConfig.IPT (recordingIPTablesRuleConfig r) = recordingIPT (IPTablesRuleConfig.IPT r)"
    by (simp_all add: recordingIPTablesRuleConfig_def)
  show ?thesis
  proof (cases e)
    case (Some err)
    with assms c c' show ?thesis by (simp add: IPTablesRuleConfig_Ensure_def)
  next
    case None
    show ?thesis
    proof (cases b)
      case True
      with assms c None
      have "appendRuleSpecs (recordingIPT (IPTablesRuleConfig.IPT r)) (TableName (Spec r))
          (ChainName (Spec r)) (RuleSpecs r) (s1, log1) = (res, (s', log'))"
        by (simp add: IPTablesRuleConfig_Ensure_def sel)
      from appendRuleSpecs_recording[OF this] c' None True show ?thesis
        by (simp add: IPTablesRuleConfig_Ensure_def)
    next
      case False
      show ?thesis
      proof (cases "IsDefaultChain (Spec r)")
        case True
        with assms c None False
        have "deleteRuleSpecs (recordingIPT (IPTablesRuleConfig.IPT r)) (TableName (Spec r))
            (ChainName (Spec r)) (RuleSpecs r) (s1, log1) = (res, (s', log'))"
          by (simp add: IPTablesRuleConfig_Ensure_def sel)
        from deleteRuleSpecs_recording[OF this] c' None True False show ?thesis
          by (auto simp: IPTablesRuleConfig_Ensure_def)
      next
        case nd: False
        with assms c c' None False show ?thesis
          by (simp add: IPTablesRuleConfig_Ensure_def sel)
      qed
    qed
  qed
qed

lemmas fakeIPT_simps =
  IPTablesRuleConfig_Ensure_def IPTablesChainSpec_ensure_def fakeIPT_def postroutingConfig_def
  ownChainConfig_def lockedConfig_def failingIPT_def masqueradeRule_def noChain_def
  badRule_def
  fatalUnlessStatus1_def recordingIPTablesRuleConfig_def recordingIPT_def

text \<open>
  C5 (amended). \<open>Ensure(false)\<close> on a config whose chain is a default chain issues
  deletes of rule specs only, never \<^verbatim>\<open>ClearChain\<close> or \<^verbatim>\<open>DeleteChain\<close>. On a chain that
  is not a default chain it issues \<^verbatim>\<open>ClearChain\<close> first; when that fails it returns the
  error and issues nothing more; when it succeeds it issues \<^verbatim>\<open>DeleteChain\<close> and nothing
  else, and returns nil when the delete's error is nil or an \<^verbatim>\<open>*iptables.Error\<close> with
  exit status 1, the error otherwise.
\<close>

theorem disable_chain_calls:
  assumes run: "IPTablesRuleConfig_Ensure (recordingIPTablesRuleConfig r) False (s, [])
      = (res, (s', log))"
  shows "(IsDefaultChain (Spec r) \<longrightarrow>
            (\<forall>call\<in>set log.
               \<exists>rs. call = DeleteCall (TableName (Spec r)) (ChainName (Spec r)) rs)) \<and>
         (\<not> IsDefaultChain (Spec r) \<longrightarrow>
            (case ClearChain (IPTablesChainSpec.IPT (Spec r)) (TableName (Spec r))
                    (ChainName (Spec r)) s of
               (Some e, s1) \<Rightarrow>
                 log = [ClearChainCall (TableName (Spec r)) (ChainName (Spec r))] \<and>
                 res = Return (Some e) \<and> s' = s1
             | (None, s1) \<Rightarrow>
                 log = [ClearChainCall (TableName (Spec r)) (ChainName (Spec r)),
                        DeleteChainCall (TableName (Spec r)) (ChainName (Spec r))] \<and>
                 (case DeleteChain (IPTablesChainSpec.IPT (Spec r)) (TableName (Spec r))
                         (ChainName (Spec r)) s1 of
                    (None, s2) \<Rightarrow> res = Return None \<and> s' = s2
                  | (Some e, s2) \<Rightarrow>
                      res = Return (if \<exists>msg. e = IptablesError 1 msg then None else Some e) \<and>
                      s' = s2))) \<and>
         IPTablesRuleConfig_Ensure r False s = (res, s')"
proof (cases "IsDefaultChain (Spec r)")
  case True
  note plain = IPTablesRuleConfig_Ensure_recording[OF run]
  from run True have "deleteRuleSpecs (recordingIPT (IPTablesRuleConfig.IPT r)) (TableName (Spec r))
      (ChainName (Spec r)) (RuleSpecs r) (s, []) = (res, (s', log))"
    by (simp add: IPTablesRuleConfig_Ensure_def IPTablesChainSpec_ensure_def
          recordingIPTablesRuleConfig_def)
  from deleteRuleSpecs_recording[OF this] True plain show ?thesis
    by (auto dest: in_set_takeD)
next
  case False
  note plain = IPTablesRuleConfig_Ensure_recording[OF run]
  define ipt where "ipt = IPTablesChainSpec.IPT (Spec r)"
  define t where "t = TableName (Spec r)"
  define c where "c = ChainName (Spec r)"
  obtain e1 s1 where cl: "ClearChain ipt t c s = (e1, s1)"
    by (cases "ClearChain ipt t c s")
  obtain e2 s2 where dl: "DeleteChain ipt t c s1 = (e2, s2)"
    by (cases "DeleteChain ipt t c s1")
  have spec: "IPTablesChainSpec_ensure (Spec (recordingIPTablesRuleConfig r)) False (s, [])
     = (case e1 of
          Some e \<Rightarrow> (Some e, (s1, [ClearChainCall t c]))
        | None \<Rightarrow>
            (case e2 of
               None \<Rightarrow> (None, (s2, [ClearChainCall t c, DeleteChainCall t c]))
             | Some e \<Rightarrow> (if \<exists>msg. e = IptablesError 1 msg then None else Some e,
                 (s2, [ClearChainCall t c, DeleteChainCall t c]))))"
    using False cl dl
    by (simp add: IPTablesChainSpec_ensure_def recordingIPTablesRuleConfig_def recordingIPT_def
          fatalUnlessStatus1_iff ipt_def t_def c_def split: option.splits)
  have "(res, (s', log)) =
      (case IPTablesChainSpec_ensure (Spec (recordingIPTablesRuleConfig r)) False (s, []) of
         (Some e, w) \<Rightarrow> (Return (Some e), w) | (None, w) \<Rightarrow> (Return None, w))"
    using run False
    by (simp add: IPTablesRuleConfig_Ensure_def recordingIPTablesRuleConfig_def
          split: prod.splits option.splits)
  with spec have "(res, (s', log)) =
      (case e1 of
         Some e \<Rightarrow> (Return (Some e), (s1, [ClearChainCall t c]))
       | None \<Rightarrow>
           (case e2 of
              None \<Rightarrow> (Return None, (s2, [ClearChainCall t c, DeleteChainCall t c]))
            | Some e \<Rightarrow> (Return (if \<exists>msg. e = IptablesError 1 msg then None else Some e),
                (s2, [ClearChainCall t c, DeleteChainCall t c]))))"
    by (simp split: option.splits)
  with False cl dl plain show ?thesis
    unfolding ipt_def t_def c_def by (simp split: option.splits)
qed

theorem disable_chain_calls_witness:
  "IPTablesRuleConfig_Ensure (recordingIPTablesRuleConfig ownChainConfig) False
     ([((''nat'', ''NETD-MASQ''), [masqueradeRule])], [])
   = (Return None,
      ([], [ClearChainCall ''nat'' ''NETD-MASQ'', DeleteChainCall ''nat'' ''NETD-MASQ''])) \<and>
   IPTablesRuleConfig_Ensure (recordingIPTablesRuleConfig postroutingConfig) False
     ([((''nat'', ''POSTROUTING''), [masqueradeRule])], [])
   = (Return None,
      ([((''nat'', ''POSTROUTING''), [])], [DeleteCall ''nat'' ''POSTROUTING'' masqueradeRule])) \<and>
   list_all (\<lambda>call. call \<noteq> ClearChainCall ''nat'' ''POSTROUTING'' \<and>
                     call \<noteq> DeleteChainCall ''nat'' ''POSTROUTING'')
     [DeleteCall ''nat'' ''POSTROUTING'' masqueradeRule]"
proof -
  have run1: "IPTablesRuleConfig_Ensure (recordingIPTablesRuleConfig ownChainConfig) False
     ([((''nat'', ''NETD-MASQ''), [masqueradeRule])], [])
   = (Return None,
      ([], [ClearChainCall ''nat'' ''NETD-MASQ'', DeleteChainCall ''nat'' ''NETD-MASQ'']))"
    by (simp add: fakeIPT_simps)
  have run2: "IPTablesRuleConfig_Ensure (recordingIPTablesRuleConfig postroutingConfig) False
     ([((''nat'', ''POSTROUTING''), [masqueradeRule])], [])
   = (Return None,
      ([((''nat'', ''POSTROUTING''), [])], [DeleteCall ''nat'' ''POSTROUTING'' masqueradeRule]))"
    by (simp add: fakeIPT_simps)
  from disable_chain_calls[OF run2]
  have "\<forall>call\<in>set [DeleteCall ''nat'' ''POSTROUTING'' masqueradeRule].
      \<exists>rs. call = DeleteCall ''nat'' ''POSTROUTING'' rs"
    by (simp add: postroutingConfig_def)
  then have "list_all (\<lambda>call. call \<noteq> ClearChainCall ''nat'' ''POSTROUTING'' \<and>
                     call \<noteq> DeleteChainCall ''nat'' ''POSTROUTING'')
     [DeleteCall ''nat'' ''POSTROUTING'' masqueradeRule]"
    by simp
  then show ?thesis using run1 run2 by simp
qed

text \<open>
  The claim as stated fails: on a chain of the config's own whose \<^verbatim>\<open>ClearChain\<close> fails
  (here with the exit status of a held lock), \<open>Ensure(false)\<close> returns that error and
  never issues \<^verbatim>\<open>DeleteChain\<close>.
\<close>

theorem failed_clear_skips_delete_counterexample:
  "IPTablesRuleConfig_Ensure (recordingIPTablesRuleConfig lockedConfig) False
     ([((''nat'', ''NETD-MASQ''), [masqueradeRule])], [])
   = (Return (Some (IptablesError 4 ''iptables: Resource temporarily unavailable.'')),
      ([((''nat'', ''NETD-MASQ''), [masqueradeRule])], [ClearChainCall ''nat'' ''NETD-MASQ'']))"
  by (simp add: fakeIPT_simps)

text \<open>
  C6 fails on the code where a delete error is no \<^verbatim>\<open>*iptables.Error\<close>: when the
  \<^verbatim>\<open>iptables\<close> binary cannot be run, \<open>Ensure(false)\<close> on a default chain panics (a nil
  \<^verbatim>\<open>eerr\<close> is dereferenced) instead of returning the error.
\<close>

theorem default_chain_delete_error_not_returned:
  "IPTablesRuleConfig_Ensure unrunnableConfig False () = (Panic, ())"
  by (simp add: IPTablesRuleConfig_Ensure_def IPTablesChainSpec_ensure_def failingIPT_def
        unrunnableConfig_def)

subsection \<open>Calling \<open>Ensure\<close> again\<close>





















text \<open>
  The case left out is left out for a reason: on the in-memory packet filter, once a
  config with rule specs has been disabled on a default chain that exists, the next
  call is never without effect. It deletes a further copy of a spec, or the delete of
  a spec that is gone reports a bad rule, which \<open>Ensure\<close> returns as an error.
\<close>

lemma badRule_not_tolerated: "\<not> deleteTolerated (Some badRule)"
  by (simp add: deleteTolerated_def badRule_def)

lemma fake_Delete_present:
  "map_of m (t, c) = Some specs \<Longrightarrow> rs \<in> set specs \<Longrightarrow>
   Delete fakeIPT t c rs m = (None, AList.update (t, c) (remove1 rs specs) m)"
  by (simp add: fakeIPT_def)

lemma fake_Delete_absent:
  "map_of m (t, c) = Some specs \<Longrightarrow> rs \<notin> set specs \<Longrightarrow>
   Delete fakeIPT t c rs m = (Some badRule, m)"
  by (simp add: fakeIPT_def)

lemma fake_delete_shrinks:
  "map_of m (t, c) = Some specs \<Longrightarrow> deleteRuleSpecs fakeIPT t c rss m = (res, m2) \<Longrightarrow>
   \<exists>specs2. map_of m2 (t, c) = Some specs2 \<and> length specs2 \<le> length specs"
proof (induction rss arbitrary: m specs)
  case Nil
  then show ?case by simp
next
  case (Cons rs rss)
  show ?case
  proof (cases "rs \<in> set specs")
    case False
    from deleteRuleSpecs_step[OF fake_Delete_absent[OF Cons.prems(1) False], of rss]
      badRule_not_tolerated Cons.prems
    show ?thesis by simp
  next
    case True
    define m1 where "m1 = AList.update (t, c) (remove1 rs specs) m"
    have m1: "map_of m1 (t, c) = Some (remove1 rs specs)"
      by (simp add: m1_def AList.update_conv')
    from deleteRuleSpecs_step[OF fake_Delete_present[OF Cons.prems(1) True], of rss] Cons.prems(2)
    have "deleteRuleSpecs fakeIPT t c rss m1 = (res, m2)"
      by (simp add: deleteTolerated_def m1_def)
    from Cons.IH[OF m1 this] obtain specs2 where
      "map_of m2 (t, c) = Some specs2" "length specs2 \<le> length (remove1 rs specs)" by blast
    moreover have "length (remove1 rs specs) \<le> length specs"
      using True by (simp add: length_remove1)
    ultimately show ?thesis by auto
  qed
qed

lemma fake_default_chain_second_call:
  assumes chain: "map_of m' (t, c) = Some specs" and specs: "rss \<noteq> []"
  shows "Ensure (IPTablesRule (fakeChainConfig t c True rss)) False m' \<noteq> (Return None, m')"
proof -
  obtain rs rest where rss: "rss = rs # rest" using specs by (cases rss) auto
  have E: "Ensure (IPTablesRule (fakeChainConfig t c True rss)) False m'
      = deleteRuleSpecs fakeIPT t c rss m'"
    by (simp add: IPTablesRuleConfig_Ensure_def IPTablesChainSpec_ensure_def fakeChainConfig_def)
  show ?thesis
  proof (cases "rs \<in> set specs")
    case False
    from deleteRuleSpecs_step[OF fake_Delete_absent[OF chain False], of rest] badRule_not_tolerated
    have "deleteRuleSpecs fakeIPT t c rss m' = (deleteStops (Some badRule), m')"
      by (simp add: rss)
    with E show ?thesis by (simp add: deleteStops_def badRule_def)
  next
    case True
    define m1 where "m1 = AList.update (t, c) (remove1 rs specs) m'"
    have m1: "map_of m1 (t, c) = Some (remove1 rs specs)"
      by (simp add: m1_def AList.update_conv')
    obtain res m2 where run: "deleteRuleSpecs fakeIPT t c rest m1 = (res, m2)"
      by (cases "deleteRuleSpecs fakeIPT t c rest m1")
    from deleteRuleSpecs_step[OF fake_Delete_present[OF chain True], of rest] run
    have all: "deleteRuleSpecs fakeIPT t c rss m' = (res, m2)"
      by (simp add: deleteTolerated_def m1_def rss)
    from fake_delete_shrinks[OF m1 run] obtain specs2 where
      "map_of m2 (t, c) = Some specs2" "length specs2 \<le> length (remove1 rs specs)" by blast
    moreover have "length (remove1 rs specs) < length specs"
    proof -
      from True have "0 < length specs" by (cases specs) auto
      with True show ?thesis by (simp add: length_remove1)
    qed
    ultimately have "m2 \<noteq> m'" using chain by auto
    with E all show ?thesis by simp
  qed
qed









subsection \<open>Sets of configs\<close>

lemma ensureConfigs_all_ok:
  "(\<And>i. i < length cs \<Longrightarrow>
      fst (Ensure (cs ! i) b (worldAfter (take i cs) b s)) = Return None) \<Longrightarrow>
   ensureConfigs cs b s = (Return None, worldAfter cs b s)"
proof (induction cs arbitrary: s)
  case Nil
  then show ?case by (simp add: worldAfter_def)
next
  case (Cons c cs)
  from Cons.prems[of 0] have c0: "fst (Ensure c b s) = Return None"
    by (simp add: worldAfter_def)
  have "ensureConfigs cs b (snd (Ensure c b s))
      = (Return None, worldAfter cs b (snd (Ensure c b s)))"
  proof (rule Cons.IH)
    fix i assume "i < length cs"
    with Cons.prems[of "Suc i"]
    show "fst (Ensure (cs ! i) b (worldAfter (take i cs) b (snd (Ensure c b s)))) = Return None"
      by (simp add: worldAfter_def)
  qed
  with c0 show ?case by (cases "Ensure c b s") (simp add: worldAfter_def)
qed

lemma ensureConfigs_first_error:
  "i < length cs \<Longrightarrow>
   (\<And>j. j < i \<Longrightarrow> fst (Ensure (cs ! j) b (worldAfter (take j cs) b s)) = Return None) \<Longrightarrow>
   fst (Ensure (cs ! i) b (worldAfter (take i cs) b s)) \<noteq> Return None \<Longrightarrow>
   ensureConfigs cs b s = Ensure (cs ! i) b (worldAfter (take i cs) b s)"
proof (induction cs arbitrary: s i)
  case Nil
  then show ?case by simp
next
  case (Cons c cs)
  show ?case
  proof (cases i)
    case 0
    with Cons.prems(3) have "fst (Ensure c b s) \<noteq> Return None"
      by (simp add: worldAfter_def)
    then show ?thesis using 0
      by (cases "Ensure c b s"; cases "fst (Ensure c b s)")
         (auto simp: worldAfter_def split: option.splits)
  next
    case (Suc k)
    from Cons.prems(2)[of 0] Suc have c0: "fst (Ensure c b s) = Return None"
      by (simp add: worldAfter_def)
    have "ensureConfigs cs b (snd (Ensure c b s))
        = Ensure (cs ! k) b (worldAfter (take k cs) b (snd (Ensure c b s)))"
    proof (rule Cons.IH)
      show "k < length cs" using Cons.prems(1) Suc by simp
    next
      fix j assume "j < k"
      with Cons.prems(2)[of "Suc j"] Suc
      show "fst (Ensure (cs ! j) b (worldAfter (take j cs) b (snd (Ensure c b s)))) = Return None"
        by (simp add: worldAfter_def)
    next
      from Cons.prems(3) Suc
      show "fst (Ensure (cs ! k) b (worldAfter (take k cs) b (snd (Ensure c b s)))) \<noteq> Return None"
        by (simp add: worldAfter_def)
    qed
    with c0 Suc show ?thesis by (cases "Ensure c b s") (simp add: worldAfter_def)
  qed
qed

text \<open>
  C8. \<open>Ensure(b)\<close> on a Set runs \<open>Ensure(b)\<close> on its members in declaration order, each
  in the world the members before it left. If every member returns nil, the Set returns
  nil in the world after all of them. If member \<open>i\<close> is the first that does not return
  nil, the Set returns exactly what that member returns, in the world that member
  leaves: the members after it are not run, and what the members before it did stays.
\<close>

theorem Set_Ensure_in_order_until_first_error:
  "((\<forall>i<length (Configs S).
        fst (Ensure (Configs S ! i) b (worldAfter (take i (Configs S)) b s)) = Return None) \<longrightarrow>
      Set_Ensure S b s = (Return None, worldAfter (Configs S) b s)) \<and>
   (i < length (Configs S) \<and>
    (\<forall>j<i. fst (Ensure (Configs S ! j) b (worldAfter (take j (Configs S)) b s)) = Return None) \<and>
    fst (Ensure (Configs S ! i) b (worldAfter (take i (Configs S)) b s)) \<noteq> Return None \<longrightarrow>
      Set_Ensure S b s = Ensure (Configs S ! i) b (worldAfter (take i (Configs S)) b s))"
  unfolding Set_Ensure_def
  by (intro conjI impI) (auto intro: ensureConfigs_all_ok ensureConfigs_first_error)

theorem Set_Ensure_witness:
  "Set_Ensure masqueradeSet True [((''nat'', ''POSTROUTING''), [])]
   = (Return (Some (IptablesError 4 ''iptables: Resource temporarily unavailable.'')),
      [((''nat'', ''POSTROUTING''), []), ((''nat'', ''NETD-MASQ''), [masqueradeRule])]) \<and>
   Set_Ensure (masqueradeSet\<lparr>Configs := [IPTablesRule ownChainConfig,
                                           IPTablesRule postroutingConfig]\<rparr>) True
     [((''nat'', ''POSTROUTING''), [])]
   = (Return None,
      [((''nat'', ''POSTROUTING''), [masqueradeRule]), ((''nat'', ''NETD-MASQ''), [masqueradeRule])])"
proof -
  let ?s = "[((''nat'', ''POSTROUTING''), [])] :: fakeTables"
  have w1: "worldAfter [IPTablesRule ownChainConfig :: (unit, fakeTables) Config] True ?s
      = [((''nat'', ''POSTROUTING''), []), ((''nat'', ''NETD-MASQ''), [masqueradeRule])]"
    by (simp add: worldAfter_def fakeIPT_simps)
  have e0: "fst (Ensure (IPTablesRule ownChainConfig :: (unit, fakeTables) Config) True ?s)
      = Return None"
    by (simp add: fakeIPT_simps)
  have e1: "Ensure (IPTablesRule lockedConfig :: (unit, fakeTables) Config) True
        [((''nat'', ''POSTROUTING''), []), ((''nat'', ''NETD-MASQ''), [masqueradeRule])]
      = (Return (Some (IptablesError 4 ''iptables: Resource temporarily unavailable.'')),
         [((''nat'', ''POSTROUTING''), []), ((''nat'', ''NETD-MASQ''), [masqueradeRule])])"
    by (simp add: fakeIPT_simps)
  have e2: "Ensure (IPTablesRule postroutingConfig :: (unit, fakeTables) Config) True
        [((''nat'', ''POSTROUTING''), []), ((''nat'', ''NETD-MASQ''), [masqueradeRule])]
      = (Return None,
         [((''nat'', ''POSTROUTING''), [masqueradeRule]),
          ((''nat'', ''NETD-MASQ''), [masqueradeRule])])"
    by (simp add: fakeIPT_simps)
  have h1: "1 < length (Configs masqueradeSet) \<and>
      (\<forall>j<1. fst (Ensure (Configs masqueradeSet ! j) True
                   (worldAfter (take j (Configs masqueradeSet)) True ?s)) = Return None) \<and>
      fst (Ensure (Configs masqueradeSet ! 1) True
             (worldAfter (take 1 (Configs masqueradeSet)) True ?s)) \<noteq> Return None"
    by (simp add: masqueradeSet_def worldAfter_def fakeIPT_simps)
  from conjunct2[OF Set_Ensure_in_order_until_first_error[of masqueradeSet True ?s 1]] h1
  have first: "Set_Ensure masqueradeSet True ?s
      = Ensure (Configs masqueradeSet ! 1) True (worldAfter (take 1 (Configs masqueradeSet)) True ?s)"
    by blast
  let ?S2 = "masqueradeSet\<lparr>Configs := [IPTablesRule ownChainConfig,
                                        IPTablesRule postroutingConfig]\<rparr>"
  have h2: "\<forall>i<length (Configs ?S2).
      fst (Ensure (Configs ?S2 ! i) True (worldAfter (take i (Configs ?S2)) True ?s)) = Return None"
    by (simp add: masqueradeSet_def worldAfter_def fakeIPT_simps All_less_Suc)
  from conjunct1[OF Set_Ensure_in_order_until_first_error[of ?S2 True ?s 0]] h2
  have all: "Set_Ensure ?S2 True ?s = (Return None, worldAfter (Configs ?S2) True ?s)"
    by blast
  have w2: "worldAfter [IPTablesRule ownChainConfig :: (unit, fakeTables) Config,
        IPTablesRule postroutingConfig] True ?s
      = [((''nat'', ''POSTROUTING''), [masqueradeRule]),
         ((''nat'', ''NETD-MASQ''), [masqueradeRule])]"
    using w1 e2 by (simp add: worldAfter_def)
  from first all show ?thesis
    using w1 w2 e1 by (simp add: masqueradeSet_def)
qed

subsection \<open>The gateway of the node's pod network\<close>

lemma split_cidr_124: "splitOn CHR ''/'' ''10.124.0.0/16'' = [''10.124.0.0'', ''16'']"
  by simp

lemma octets_124:
  "map parseDecimal (splitOn CHR ''.'' ''10.124.0.0'') = [Some 10, Some 124, Some 0, Some 0]"
  by (simp add: parseDecimal_def digitOf_def)

lemma parseIPv4_124: "parseIPv4 ''10.124.0.0'' = Some 0x0A7C0000"
  unfolding parseIPv4_def octets_124 by simp

lemma ParseCIDR_124: "ParseCIDR ''10.124.0.0/16'' = Some (0x0A7C0000, 16)"
  unfolding ParseCIDR_def split_cidr_124
  by (simp add: parseIPv4_124 parseDecimal_def digitOf_def)

lemma gatewayDst_124:
  "gatewayDst (0x0A7C0000, 16)
     = \<lparr>IP = Some [10, 124, 0, 1], Mask = Some [255, 255, 255, 255]\<rparr>"
  by code_simp

lemma split_cidr_52: "splitOn CHR ''/'' ''10.52.1.0/24'' = [''10.52.1.0'', ''24'']"
  by simp

lemma octets_52:
  "map parseDecimal (splitOn CHR ''.'' ''10.52.1.0'') = [Some 10, Some 52, Some 1, Some 0]"
  by (simp add: parseDecimal_def digitOf_def)

lemma parseIPv4_52: "parseIPv4 ''10.52.1.0'' = Some 0x0A340100"
  unfolding parseIPv4_def octets_52 by simp

lemma ParseCIDR_52: "ParseCIDR ''10.52.1.0/24'' = Some (0x0A340100, 24)"
  unfolding ParseCIDR_def split_cidr_52
  by (simp add: parseIPv4_52 parseDecimal_def digitOf_def)

lemma gatewayDst_52:
  "gatewayDst (0x0A340100, 24)
     = \<lparr>IP = Some [10, 52, 1, 1], Mask = Some [255, 255, 255, 255]\<rparr>"
  by code_simp

lemma fillLocalRulesFromNode_ok:
  "podCIDROf node = Some cidr \<Longrightarrow> ParseCIDR cidr = Some net \<Longrightarrow> internalIPs node \<noteq> [] \<Longrightarrow>
   fillLocalRulesFromNode newRuleConfig node st
     = Inr \<lparr>vethGatewayDst = gatewayDst net,
            LocalTableRuleConfigs = map newRuleConfig (internalIPs node)\<rparr>"
  by (simp add: fillLocalRulesFromNode_def)

text \<open>
  C9. For every node whose pod CIDR parses (and that reports an internal address, so
  that the builder returns without error), the builder sets \<open>vethGatewayDst\<close> to the
  base address of the CIDR's network plus one, with a /32 mask. Pod CIDR
  \<^verbatim>\<open>10.124.0.0/16\<close> gives \<^verbatim>\<open>10.124.0.1/32\<close> and \<^verbatim>\<open>10.52.1.0/24\<close> gives \<^verbatim>\<open>10.52.1.1/32\<close>.
\<close>

theorem vethGatewayDst_is_network_base_plus_one:
  "(podCIDROf node = Some cidr \<and> ParseCIDR cidr = Some net \<and> internalIPs node \<noteq> [] \<longrightarrow>
      (\<exists>st'. fillLocalRulesFromNode newRuleConfig node st = Inr st' \<and>
         vethGatewayDst st'
           = \<lparr>IP = Some (ipBytes (networkBase net + 1)), Mask = Some [255, 255, 255, 255]\<rparr>)) \<and>
   (podCIDROf node = Some ''10.124.0.0/16'' \<and> internalIPs node \<noteq> [] \<longrightarrow>
      (\<exists>st'. fillLocalRulesFromNode newRuleConfig node st = Inr st' \<and>
         vethGatewayDst st'
           = \<lparr>IP = Some [10, 124, 0, 1], Mask = Some [255, 255, 255, 255]\<rparr>)) \<and>
   (podCIDROf node = Some ''10.52.1.0/24'' \<and> internalIPs node \<noteq> [] \<longrightarrow>
      (\<exists>st'. fillLocalRulesFromNode newRuleConfig node st = Inr st' \<and>
         vethGatewayDst st'
           = \<lparr>IP = Some [10, 52, 1, 1], Mask = Some [255, 255, 255, 255]\<rparr>))"
proof (intro conjI impI)
  assume "podCIDROf node = Some cidr \<and> ParseCIDR cidr = Some net \<and> internalIPs node \<noteq> []"
  then show "\<exists>st'. fillLocalRulesFromNode newRuleConfig node st = Inr st' \<and>
         vethGatewayDst st'
           = \<lparr>IP = Some (ipBytes (networkBase net + 1)), Mask = Some [255, 255, 255, 255]\<rparr>"
    by (simp add: fillLocalRulesFromNode_ok gatewayDst_def)
next
  assume "podCIDROf node = Some ''10.124.0.0/16'' \<and> internalIPs node \<noteq> []"
  then show "\<exists>st'. fillLocalRulesFromNode newRuleConfig node st = Inr st' \<and>
         vethGatewayDst st' = \<lparr>IP = Some [10, 124, 0, 1], Mask = Some [255, 255, 255, 255]\<rparr>"
    by (simp add: fillLocalRulesFromNode_ok[OF _ ParseCIDR_124] gatewayDst_124)
next
  assume "podCIDROf node = Some ''10.52.1.0/24'' \<and> internalIPs node \<noteq> []"
  then show "\<exists>st'. fillLocalRulesFromNode newRuleConfig node st = Inr st' \<and>
         vethGatewayDst st' = \<lparr>IP = Some [10, 52, 1, 1], Mask = Some [255, 255, 255, 255]\<rparr>"
    by (simp add: fillLocalRulesFromNode_ok[OF _ ParseCIDR_52] gatewayDst_52)
qed

theorem vethGatewayDst_witness:
  "fillLocalRulesFromNode id testNode
     \<lparr>vethGatewayDst = \<lparr>IP = None, Mask = None\<rparr>, LocalTableRuleConfigs = []\<rparr>
   = Inr \<lparr>vethGatewayDst = \<lparr>IP = Some [10, 124, 0, 1], Mask = Some [255, 255, 255, 255]\<rparr>,
          LocalTableRuleConfigs = [''10.128.0.24'']\<rparr> \<and>
   fillLocalRulesFromNode id listNode
     \<lparr>vethGatewayDst = \<lparr>IP = None, Mask = None\<rparr>, LocalTableRuleConfigs = []\<rparr>
   = Inr \<lparr>vethGatewayDst = \<lparr>IP = Some [10, 52, 1, 1], Mask = Some [255, 255, 255, 255]\<rparr>,
          LocalTableRuleConfigs = [''10.128.0.24'']\<rparr>"
proof -
  have p1: "podCIDROf testNode = Some ''10.124.0.0/16''" "internalIPs testNode = [''10.128.0.24'']"
    by (simp_all add: podCIDROf_def internalIPs_def testNode_def)
  have p2: "podCIDROf listNode = Some ''10.52.1.0/24''" "internalIPs listNode = [''10.128.0.24'']"
    by (simp_all add: podCIDROf_def internalIPs_def listNode_def)
  from vethGatewayDst_is_network_base_plus_one[of testNode _ _ id
      "\<lparr>vethGatewayDst = \<lparr>IP = None, Mask = None\<rparr>, LocalTableRuleConfigs = []\<rparr>"] p1
  have g1: "\<exists>st'. fillLocalRulesFromNode id testNode
        \<lparr>vethGatewayDst = \<lparr>IP = None, Mask = None\<rparr>, LocalTableRuleConfigs = []\<rparr> = Inr st' \<and>
      vethGatewayDst st' = \<lparr>IP = Some [10, 124, 0, 1], Mask = Some [255, 255, 255, 255]\<rparr>"
    by simp
  from vethGatewayDst_is_network_base_plus_one[of listNode _ _ id
      "\<lparr>vethGatewayDst = \<lparr>IP = None, Mask = None\<rparr>, LocalTableRuleConfigs = []\<rparr>"] p2
  have g2: "\<exists>st'. fillLocalRulesFromNode id listNode
        \<lparr>vethGatewayDst = \<lparr>IP = None, Mask = None\<rparr>, LocalTableRuleConfigs = []\<rparr> = Inr st' \<and>
      vethGatewayDst st' = \<lparr>IP = Some [10, 52, 1, 1], Mask = Some [255, 255, 255, 255]\<rparr>"
    by simp
  from g1 g2 show ?thesis
    by (auto simp: fillLocalRulesFromNode_ok[OF p1(1) ParseCIDR_124]
          fillLocalRulesFromNode_ok[OF p2(1) ParseCIDR_52] p1 p2)
qed

end
